theory Spec2Isabelle
  imports Main "HOL-Library.Sublist"
begin

section \<open>Deriving CustomResourceDefinitions from a CompositeResourceDefinition\<close>

text \<open>
  A shallow embedding of package \<open>ccrd\<close> (\<open>apis/apiextensions/v1alpha1/ccrd/crd.go\<close>):
  \<open>ForCompositeResource\<close>, \<open>ForCompositeResourceClaim\<close>, \<open>validateClaimNames\<close>,
  \<open>getSpecProps\<close> and \<open>IsEstablished\<close>.

  Go values are modelled as follows.
  \<^item> Structs are records, with the fields the five functions read or write.
  \<^item> A slice that is appended to is a Go slice header (backing array, offset, length,
    capacity) over an explicit store of backing arrays, since \<open>append\<close> writes in place
    when the capacity allows it.
  \<^item> A \<open>map[string]string\<close> of labels or annotations is a reference into the store: the
    functions hand the reference on and never write through it.
  \<^item> A \<open>map[string]JSONSchemaProps\<close> is a partial function, wrapped in \<open>option\<close> so that
    the nil map (\<open>None\<close>) is told apart from an allocated one: reading a nil map finds
    nothing, assigning to it panics.
  \<^item> A returned \<open>error\<close> is a value of type \<open>error\<close>; a run-time panic is a value of type
    \<open>panic\<close>; a call yields \<open>Inl\<close> of one of them or \<open>Inr\<close> of its result.
\<close>

subsection \<open>Errors (\<open>github.com/pkg/errors\<close>) and panics\<close>

datatype error =
    New string              \<comment> \<open>\<open>errors.New(msg)\<close>, and \<open>errors.Errorf\<close> after formatting\<close>
  | Wrap error string       \<comment> \<open>\<open>errors.Wrap(err, msg)\<close> for a non-nil \<open>err\<close>\<close>
  | JSONError string        \<comment> \<open>an error of \<open>encoding/json\<close>, with its text\<close>

text \<open>The text of an error, as \<open>Error()\<close> returns it: a wrapper prefixes its context.\<close>

fun Error :: "error \<Rightarrow> string" where
  "Error (New msg) = msg"
| "Error (Wrap err msg) = msg @ '': '' @ Error err"
| "Error (JSONError msg) = msg"

datatype panic = NilPointerDereference | NilMapAssignment

datatype failure = Panic panic | Err error

definition errGetSpecProps :: string where
  "errGetSpecProps = ''cannot get spec properties from validation schema''"

definition errParseValidation :: string where
  "errParseValidation = ''cannot parse validation schema''"

definition errInvalidClaimNames :: string where
  "errInvalidClaimNames = ''invalid resource claim names''"

definition errMissingClaimNames :: string where
  "errMissingClaimNames = ''missing names''"

definition errFmtConflictingClaimName :: string where
  "errFmtConflictingClaimName = ''%q conflicts with composite resource name''"

definition CategoryClaim :: string where
  "CategoryClaim = ''claim''"

definition CategoryComposite :: string where
  "CategoryComposite = ''composite''"

text \<open>
  \<open>fmt.Sprintf(format, a)\<close> for one string argument and a format whose only verb is
  \<open>%q\<close>: the text up to the verb, the quoted argument, the text after it. The quoting
  itself is \<open>strconv.Quote\<close> of the Go library, the parameter \<open>quote\<close>. A format without
  a verb leaves the argument over, which \<open>fmt\<close> reports at the end of the text.
\<close>

fun Sprintf :: "(string \<Rightarrow> string) \<Rightarrow> string \<Rightarrow> string \<Rightarrow> string" where
  "Sprintf quote [] a = ''%!(EXTRA string='' @ a @ '')''"
| "Sprintf quote [c] a = c # ''%!(EXTRA string='' @ a @ '')''"
| "Sprintf quote (c # d # fs) a =
     (if c = CHR ''%'' \<and> d = CHR ''q'' then quote a @ fs
      else c # Sprintf quote (d # fs) a)"

definition Errorf :: "(string \<Rightarrow> string) \<Rightarrow> string \<Rightarrow> string \<Rightarrow> error" where
  "Errorf quote format a = New (Sprintf quote format a)"

subsection \<open>Slices and the store\<close>

type_synonym addr = nat
type_synonym bytes = string

text \<open>
  A slice header: the backing array \<open>ptr\<close>, the index \<open>off\<close> of the slice's first element
  in it, the length and the capacity. The nil slice has length and capacity 0.
\<close>

record slice =
  ptr :: addr
  off :: nat
  len :: nat
  cap :: nat

type_synonym 'a arrays = "addr \<Rightarrow> nat \<Rightarrow> 'a"

text \<open>\<open>extv1.CustomResourceColumnDefinition\<close>.\<close>

record Column =
  Column_Name :: string
  Column_Type :: string
  Column_Format :: string
  Column_Description :: string
  Column_Priority :: int
  Column_JSONPath :: string

text \<open>
  The store: the backing arrays of \<open>[]string\<close> and of \<open>[]CustomResourceColumnDefinition\<close>
  slices, the \<open>map[string]string\<close> objects, and the first address not yet allocated.
\<close>

record heap =
  strings :: "string arrays"
  columns :: "Column arrays"
  maps :: "addr \<Rightarrow> string \<Rightarrow> string option"
  fresh :: addr

text \<open>The elements of a slice.\<close>

definition view :: "'a arrays \<Rightarrow> slice \<Rightarrow> 'a list" where
  "view A s = map (A (ptr s)) [off s ..< off s + len s]"

text \<open>Storing the elements \<open>xs\<close> into an array from index \<open>i\<close> on.\<close>

definition store_at :: "(nat \<Rightarrow> 'a) \<Rightarrow> nat \<Rightarrow> 'a list \<Rightarrow> nat \<Rightarrow> 'a" where
  "store_at a i xs = (\<lambda>j. if i \<le> j \<and> j < i + length xs then xs ! (j - i) else a j)"

text \<open>
  \<open>append(s, xs...)\<close>. When the capacity suffices the elements are stored behind the
  slice's last element in its own backing array, and the result shares that array.
  Otherwise a new array is allocated at address \<open>new\<close>, receiving the old elements and
  \<open>xs\<close>; its capacity is chosen by the run-time system (\<open>grow\<close>, given the old capacity and
  the capacity needed) and is at least the capacity needed. The cells of the new array
  behind the stored elements, zero in Go, are left as the store has them: nothing reads
  them. The result is the new store of arrays, whether an array was allocated, and the
  resulting slice.
\<close>

definition append_slice ::
  "(nat \<Rightarrow> nat \<Rightarrow> nat) \<Rightarrow> 'a arrays \<Rightarrow> addr \<Rightarrow> slice \<Rightarrow> 'a list \<Rightarrow> 'a arrays \<times> bool \<times> slice" where
  "append_slice grow A new s xs =
     (let n = len s + length xs in
      if n \<le> cap s
      then (A(ptr s := store_at (A (ptr s)) (off s + len s) xs), False, s\<lparr>len := n\<rparr>)
      else (A(new := store_at (A new) 0 (view A s @ xs)), True,
            \<lparr>ptr = new, off = 0, len = n, cap = max n (grow (cap s) n)\<rparr>))"

subsection \<open>Schemas\<close>

text \<open>
  \<open>extv1.JSONSchemaProps\<close>, with the two fields the package reads: the type and the
  properties. The other fields of a schema node travel with it unchanged.
\<close>

datatype JSONSchemaProps =
  JSONSchemaProps (Type: string) (Properties: "(string \<Rightarrow> JSONSchemaProps option) option")

type_synonym props = "(string \<Rightarrow> JSONSchemaProps option) option"

text \<open>Reading a map: \<open>v, ok := m[k]\<close>, and the entries a \<open>range\<close> over it visits.\<close>

definition lookup :: "props \<Rightarrow> string \<Rightarrow> JSONSchemaProps option" where
  "lookup m k = (case m of None \<Rightarrow> None | Some f \<Rightarrow> f k)"

definition entries :: "props \<Rightarrow> string \<Rightarrow> JSONSchemaProps option" where
  "entries m = (case m of None \<Rightarrow> Map.empty | Some f \<Rightarrow> f)"

subsection \<open>The definitions\<close>

text \<open>\<open>extv1.CustomResourceDefinitionNames\<close>.\<close>

record Names =
  Plural :: string
  Singular :: string
  ShortNames :: slice
  Kind :: string
  ListKind :: string
  Categories :: slice

text \<open>
  \<open>v1alpha1.CompositeResourceDefinitionVersion\<close>. \<open>Schema\<close> is the pointer to the
  validation: \<open>None\<close> when nil, otherwise the bytes \<open>OpenAPIV3Schema.Raw\<close>.
\<close>

record Version =
  Version_Name :: string
  Referenceable :: bool
  Served :: bool
  Schema :: "bytes option"
  AdditionalPrinterColumns :: slice

text \<open>
  \<open>v1alpha1.CompositeResourceDefinition\<close>: the object's meta data and its spec.
  \<open>ClaimNames\<close> is a pointer, \<open>None\<close> when nil; labels and annotations are references to
  map objects, \<open>None\<close> when nil.
\<close>

record CompositeResourceDefinition =
  XRD_Name :: string
  XRD_UID :: string
  XRD_Labels :: "addr option"
  XRD_Annotations :: "addr option"
  Group :: string
  XRD_Names :: Names
  ClaimNames :: "Names option"
  Versions :: "Version list"

datatype ResourceScope = ClusterScoped | NamespaceScoped

text \<open>\<open>metav1.OwnerReference\<close>, as \<open>meta.AsController\<close> fills it.\<close>

record OwnerReference =
  Owner_APIVersion :: string
  Owner_Kind :: string
  Owner_Name :: string
  Owner_UID :: string
  Owner_Controller :: "bool option"

text \<open>
  \<open>extv1.CustomResourceDefinitionVersion\<close>. \<open>OpenAPIV3Schema\<close> is the node that
  \<open>Schema.OpenAPIV3Schema\<close> points to; \<open>SubresourcesStatus\<close> says that
  \<open>Subresources.Status\<close> is set.
\<close>

record CustomResourceDefinitionVersion =
  CRDVersion_Name :: string
  CRDVersion_Served :: bool
  Storage :: bool
  CRDVersion_AdditionalPrinterColumns :: slice
  OpenAPIV3Schema :: JSONSchemaProps
  SubresourcesStatus :: bool

record CustomResourceDefinition =
  CRD_Name :: string
  CRD_Labels :: "addr option"
  CRD_Annotations :: "addr option"
  CRD_OwnerReferences :: "OwnerReference list"
  Scope :: ResourceScope
  CRD_Group :: string
  CRD_Names :: Names
  CRD_Versions :: "CustomResourceDefinitionVersion list"

subsection \<open>What the package takes from elsewhere\<close>

text \<open>
  The tables of \<open>schemas.go\<close> of this package, which is not among the sources, and the
  library functions the package calls, are parameters:
  \<^item> \<open>BaseProps\<close>, \<open>CompositeResourceSpecProps\<close>, \<open>CompositeResourceClaimSpecProps\<close>,
    \<open>CompositeResourceStatusProps\<close>: the maps these functions return. Each call is taken
    to return a newly allocated tree of maps, so that an assignment into one generated
    version's schema reaches no other schema;
  \<^item> \<open>CompositeResourcePrinterColumns\<close>, \<open>CompositeResourceClaimPrinterColumns\<close>: the
    columns these functions return;
  \<^item> \<open>GroupVersionKind\<close>: the API version and kind of
    \<open>v1alpha1.CompositeResourceDefinitionGroupVersionKind\<close>;
  \<^item> \<open>Unmarshal\<close>: \<open>json.Unmarshal\<close> into an empty \<open>JSONSchemaProps\<close>, yielding the decoded
    node or the library's error;
  \<^item> \<open>Quote\<close>: \<open>strconv.Quote\<close>, which the verb \<open>%q\<close> applies to a string;
  \<^item> \<open>growslice\<close>: the capacity the run-time system gives a reallocated slice.
\<close>

record env =
  BaseProps :: props
  CompositeResourceSpecProps :: props
  CompositeResourceClaimSpecProps :: props
  CompositeResourceStatusProps :: props
  CompositeResourcePrinterColumns :: "Column list"
  CompositeResourceClaimPrinterColumns :: "Column list"
  GroupVersionKind :: "string \<times> string"
  Unmarshal :: "bytes \<Rightarrow> error + JSONSchemaProps"
  Quote :: "string \<Rightarrow> string"
  growslice :: "nat \<Rightarrow> nat \<Rightarrow> nat"

subsection \<open>\<open>validateClaimNames\<close>\<close>

text \<open>The function returns an \<open>error\<close>, nil (\<open>None\<close>) when the names are valid.\<close>

definition validateClaimNames :: "env \<Rightarrow> CompositeResourceDefinition \<Rightarrow> error option" where
  "validateClaimNames E d =
     (case ClaimNames d of
        None \<Rightarrow> Some (New errMissingClaimNames)
      | Some c \<Rightarrow>
          if Kind c = Kind (XRD_Names d)
          then Some (Errorf (Quote E) errFmtConflictingClaimName (Kind c))
          else if Plural c = Plural (XRD_Names d)
          then Some (Errorf (Quote E) errFmtConflictingClaimName (Plural c))
          else if Singular c \<noteq> [] \<and> Singular c = Singular (XRD_Names d)
          then Some (Errorf (Quote E) errFmtConflictingClaimName (Singular c))
          else if ListKind c \<noteq> [] \<and> ListKind c = ListKind (XRD_Names d)
          then Some (Errorf (Quote E) errFmtConflictingClaimName (ListKind c))
          else None)"

subsection \<open>\<open>getSpecProps\<close>\<close>

definition getSpecProps :: "env \<Rightarrow> bytes option \<Rightarrow> error + props" where
  "getSpecProps E v =
     (case v of
        None \<Rightarrow> Inr None
      | Some raw \<Rightarrow>
          (case Unmarshal E raw of
             Inl err \<Rightarrow> Inl (Wrap err errParseValidation)
           | Inr s \<Rightarrow>
               (case lookup (Properties s) ''spec'' of
                  None \<Rightarrow> Inr None
                | Some spec \<Rightarrow> Inr (Properties spec))))"

subsection \<open>The version loop\<close>

text \<open>\<open>append\<close> on a \<open>[]string\<close> and on a \<open>[]CustomResourceColumnDefinition\<close> of the store.\<close>

definition append_strings :: "env \<Rightarrow> heap \<Rightarrow> slice \<Rightarrow> string list \<Rightarrow> heap \<times> slice" where
  "append_strings E h s xs =
     (case append_slice (growslice E) (strings h) (fresh h) s xs of
        (A, allocated, s') \<Rightarrow>
          (h\<lparr>strings := A, fresh := (if allocated then Suc (fresh h) else fresh h)\<rparr>, s'))"

definition append_columns :: "env \<Rightarrow> heap \<Rightarrow> slice \<Rightarrow> Column list \<Rightarrow> heap \<times> slice" where
  "append_columns E h s xs =
     (case append_slice (growslice E) (columns h) (fresh h) s xs of
        (A, allocated, s') \<Rightarrow>
          (h\<lparr>columns := A, fresh := (if allocated then Suc (fresh h) else fresh h)\<rparr>, s'))"

text \<open>
  The loop \<open>for k, v := range layer { schema.Properties[key].Properties[k] = v }\<close>.
  With no entry in \<open>layer\<close> nothing is evaluated. Otherwise \<open>schema.Properties[key]\<close>
  is read (the zero node when the key is missing, whose \<open>Properties\<close> is nil) and the
  assignment to its \<open>Properties\<close> panics when that map is nil. The map is shared by
  the node stored under \<open>key\<close>, so the assignments show there; their order does not
  matter, the keys being distinct.
\<close>

definition assignProperties :: "JSONSchemaProps \<Rightarrow> string \<Rightarrow> props \<Rightarrow> panic + JSONSchemaProps" where
  "assignProperties schema key layer =
     (if entries layer = Map.empty then Inr schema
      else (case lookup (Properties schema) key of
              None \<Rightarrow> Inl NilMapAssignment
            | Some node \<Rightarrow>
                (case Properties node of
                   None \<Rightarrow> Inl NilMapAssignment
                 | Some m \<Rightarrow>
                     Inr (JSONSchemaProps (Type schema)
                           (Some ((entries (Properties schema))
                              (key \<mapsto> JSONSchemaProps (Type node) (Some (m ++ entries layer)))))))))"

text \<open>
  The three loops at the end of the body (lines 93 to 101 and 153 to 161): the parsed
  properties and then the standard ones under \<open>spec\<close>, the status ones under \<open>status\<close>.
\<close>

definition assignLayers :: "env \<Rightarrow> props \<Rightarrow> props \<Rightarrow> panic + JSONSchemaProps" where
  "assignLayers E p specProps =
     (case assignProperties (JSONSchemaProps ''object'' (BaseProps E)) ''spec'' p of
        Inl pn \<Rightarrow> Inl pn
      | Inr s1 \<Rightarrow>
          (case assignProperties s1 ''spec'' specProps of
             Inl pn \<Rightarrow> Inl pn
           | Inr s2 \<Rightarrow> assignProperties s2 ''status'' (CompositeResourceStatusProps E)))"

text \<open>
  The loop over \<open>xrd.Spec.Versions\<close> (lines 72 to 102 and 132 to 162), the same in both
  functions but for the printer columns and the standard spec properties, here
  \<open>printerColumns\<close> and \<open>specProps\<close>. One turn builds the version, whose
  \<open>append\<close> acts on the store, parses the schema and returns at once when that fails,
  and assigns the layers. The versions built are \<open>crd.Spec.Versions\<close> in order; an
  error or a panic leaves none of them to the caller.
\<close>

fun versions_range ::
  "env \<Rightarrow> Column list \<Rightarrow> props \<Rightarrow> heap \<Rightarrow> Version list
     \<Rightarrow> heap \<times> (failure + CustomResourceDefinitionVersion list)" where
  "versions_range E printerColumns specProps h [] = (h, Inr [])"
| "versions_range E printerColumns specProps h (vr # vrs) =
     (case append_columns E h (AdditionalPrinterColumns vr) printerColumns of
        (h1, cols) \<Rightarrow>
          (case getSpecProps E (Schema vr) of
             Inl err \<Rightarrow> (h1, Inl (Err (Wrap err errGetSpecProps)))
           | Inr p \<Rightarrow>
               (case assignLayers E p specProps of
                  Inl pn \<Rightarrow> (h1, Inl (Panic pn))
                | Inr schema \<Rightarrow>
                    (case versions_range E printerColumns specProps h1 vrs of
                       (h2, Inl f) \<Rightarrow> (h2, Inl f)
                     | (h2, Inr vs) \<Rightarrow>
                         (h2, Inr (\<lparr>CRDVersion_Name = Version_Name vr,
                                    CRDVersion_Served = Served vr,
                                    Storage = Referenceable vr,
                                    CRDVersion_AdditionalPrinterColumns = cols,
                                    OpenAPIV3Schema = schema,
                                    SubresourcesStatus = True\<rparr> # vs))))))"

subsection \<open>\<open>ForCompositeResource\<close> and \<open>ForCompositeResourceClaim\<close>\<close>

text \<open>
  \<open>meta.AsController(meta.TypedReferenceTo(xrd, gvk))\<close>: the reference names the
  definition by API version, kind, name and UID, and is marked as the controller.
\<close>

definition AsController_TypedReferenceTo :: "env \<Rightarrow> CompositeResourceDefinition \<Rightarrow> OwnerReference" where
  "AsController_TypedReferenceTo E xrd =
     \<lparr>Owner_APIVersion = fst (GroupVersionKind E), Owner_Kind = snd (GroupVersionKind E),
      Owner_Name = XRD_Name xrd, Owner_UID = XRD_UID xrd, Owner_Controller = Some True\<rparr>"

text \<open>
  Both functions take the definition that \<open>xrd\<close> points to and the store, and return the
  store they leave with the failure or the definition built. \<open>crd.Spec.Names\<close> is a copy
  of the names struct, so its \<open>Categories\<close> is the same slice as the input's until
  \<open>append\<close> replaces it.
\<close>

definition ForCompositeResource ::
  "env \<Rightarrow> heap \<Rightarrow> CompositeResourceDefinition \<Rightarrow> heap \<times> (failure + CustomResourceDefinition)" where
  "ForCompositeResource E h xrd =
     (case append_strings E h (Categories (XRD_Names xrd)) [CategoryComposite] of
        (h1, cats) \<Rightarrow>
          (case versions_range E (CompositeResourcePrinterColumns E) (CompositeResourceSpecProps E)
                  h1 (Versions xrd) of
             (h2, Inl f) \<Rightarrow> (h2, Inl f)
           | (h2, Inr vs) \<Rightarrow>
               (h2, Inr \<lparr>CRD_Name = XRD_Name xrd,
                         CRD_Labels = XRD_Labels xrd,
                         CRD_Annotations = XRD_Annotations xrd,
                         CRD_OwnerReferences = [AsController_TypedReferenceTo E xrd],
                         Scope = ClusterScoped,
                         CRD_Group = Group xrd,
                         CRD_Names = (XRD_Names xrd)\<lparr>Categories := cats\<rparr>,
                         CRD_Versions = vs\<rparr>)))"

text \<open>
  \<open>*xrd.Spec.ClaimNames\<close> and \<open>xrd.Spec.ClaimNames.Plural\<close> dereference the pointer: a nil
  pointer would panic there.
\<close>

definition ForCompositeResourceClaim ::
  "env \<Rightarrow> heap \<Rightarrow> CompositeResourceDefinition \<Rightarrow> heap \<times> (failure + CustomResourceDefinition)" where
  "ForCompositeResourceClaim E h xrd =
     (case validateClaimNames E xrd of
        Some err \<Rightarrow> (h, Inl (Err (Wrap err errInvalidClaimNames)))
      | None \<Rightarrow>
          (case ClaimNames xrd of
             None \<Rightarrow> (h, Inl (Panic NilPointerDereference))
           | Some claimNames \<Rightarrow>
               (case append_strings E h (Categories claimNames) [CategoryClaim] of
                  (h1, cats) \<Rightarrow>
                    (case versions_range E (CompositeResourceClaimPrinterColumns E)
                            (CompositeResourceClaimSpecProps E) h1 (Versions xrd) of
                       (h2, Inl f) \<Rightarrow> (h2, Inl f)
                     | (h2, Inr vs) \<Rightarrow>
                         (h2, Inr \<lparr>CRD_Name = Plural claimNames @ ''.'' @ Group xrd,
                                   CRD_Labels = XRD_Labels xrd,
                                   CRD_Annotations = XRD_Annotations xrd,
                                   CRD_OwnerReferences = [AsController_TypedReferenceTo E xrd],
                                   Scope = NamespaceScoped,
                                   CRD_Group = Group xrd,
                                   CRD_Names = claimNames\<lparr>Categories := cats\<rparr>,
                                   CRD_Versions = vs\<rparr>)))))"

subsection \<open>\<open>IsEstablished\<close>\<close>

text \<open>
  \<open>extv1.CustomResourceDefinitionCondition\<close> with its type and status, both strings in
  Go, and the two constants of \<open>extv1\<close> the function compares them with.
\<close>

record Condition =
  Condition_Type :: string
  Condition_Status :: string

record CustomResourceDefinitionStatus =
  Conditions :: "Condition list"

definition Established :: string where
  "Established = ''Established''"

definition ConditionTrue :: string where
  "ConditionTrue = ''True''"

fun IsEstablished_range :: "Condition list \<Rightarrow> bool" where
  "IsEstablished_range [] = False"
| "IsEstablished_range (c # cs) =
     (if Condition_Type c = Established then Condition_Status c = ConditionTrue
      else IsEstablished_range cs)"

definition IsEstablished :: "CustomResourceDefinitionStatus \<Rightarrow> bool" where
  "IsEstablished s = IsEstablished_range (Conditions s)"

subsection \<open>Reading a schema\<close>

text \<open>
  The properties found under a property of a schema node, the expression
  \<open>schema.Properties[key].Properties\<close> read as a map: nothing when the key is missing or
  the map is nil.
\<close>

definition propertiesUnder :: "JSONSchemaProps \<Rightarrow> string \<Rightarrow> string \<Rightarrow> JSONSchemaProps option" where
  "propertiesUnder schema key =
     (case lookup (Properties schema) key of
        None \<Rightarrow> Map.empty
      | Some node \<Rightarrow> entries (Properties node))"

text \<open>
  A map has, under \<open>key\<close>, a node whose \<open>Properties\<close> is an allocated map: the assignment
  \<open>m[key].Properties[k] = v\<close> does not panic.
\<close>

definition writable :: "props \<Rightarrow> string \<Rightarrow> bool" where
  "writable m key = (case lookup m key of None \<Rightarrow> False | Some node \<Rightarrow> Properties node \<noteq> None)"

subsection \<open>The validator as the specification words it\<close>

text \<open>
  Section 4.1 of the specification describes the validator by its failures:
  \<open>MissingClaimNames\<close> when there is no claim name set, otherwise
  \<open>NameConflict(field, value)\<close> for the first, in the order kind, plural, singular,
  listKind, of the fields whose claim value equals the composite's, singular and
  listKind being looked at only when the claim's value is not empty. \<open>validate\<close> is
  that description, to be compared with \<open>validateClaimNames\<close>.
\<close>

datatype NameField = KindField | PluralField | SingularField | ListKindField

datatype ValidationError = MissingClaimNames | NameConflict NameField string

definition validate :: "CompositeResourceDefinition \<Rightarrow> ValidationError option" where
  "validate d =
     (case ClaimNames d of
        None \<Rightarrow> Some MissingClaimNames
      | Some c \<Rightarrow>
          (case List.find (\<lambda>(field, looked_at, claim, composite). looked_at \<and> claim = composite)
                  [(KindField, True, Kind c, Kind (XRD_Names d)),
                   (PluralField, True, Plural c, Plural (XRD_Names d)),
                   (SingularField, Singular c \<noteq> [], Singular c, Singular (XRD_Names d)),
                   (ListKindField, ListKind c \<noteq> [], ListKind c, ListKind (XRD_Names d))] of
             None \<Rightarrow> None
           | Some (field, looked_at, claim, composite) \<Rightarrow> Some (NameConflict field claim)))"

text \<open>The error value by which \<open>validateClaimNames\<close> reports each of these failures.\<close>

fun reported :: "env \<Rightarrow> ValidationError \<Rightarrow> error" where
  "reported E MissingClaimNames = New errMissingClaimNames"
| "reported E (NameConflict field v) = Errorf (Quote E) errFmtConflictingClaimName v"

subsection \<open>Inputs for the examples\<close>

text \<open>
  An environment to run the functions in: tables of the shape the package's
  \<open>schemas.go\<close> gives them, a decoder that knows three documents and rejects every
  other one, a lone closing brace as an invalid character and the rest as an input that
  ends too early, the quoting of a string that needs no escape, and a run-time system
  that doubles the capacity of a slice when it grows.
\<close>

definition example_Unmarshal :: "bytes \<Rightarrow> error + JSONSchemaProps" where
  \<open>example_Unmarshal raw =
     (if raw = ''{"properties":{"spec":{"properties":{"foo":{"type":"string"}}}}}''
      then Inr (JSONSchemaProps [] (Some [''spec'' \<mapsto>
                 JSONSchemaProps [] (Some [''foo'' \<mapsto> JSONSchemaProps ''string'' None])]))
      else if raw = ''{"properties":{"spec":{"properties":{"size":{"type":"integer"},"compositionRef":{"type":"string"}}}}}''
      then Inr (JSONSchemaProps [] (Some [''spec'' \<mapsto>
                 JSONSchemaProps [] (Some [''size'' \<mapsto> JSONSchemaProps ''integer'' None,
                                           ''compositionRef'' \<mapsto> JSONSchemaProps ''string'' None])]))
      else if raw = ''{"type":"object"}''
      then Inr (JSONSchemaProps ''object'' None)
      else if raw = ''}''
      then Inl (JSONError ''invalid character '}' looking for beginning of value'')
      else Inl (JSONError ''unexpected end of JSON input''))\<close>

definition example_env :: env where
  "example_env =
     \<lparr>BaseProps = Some [''apiVersion'' \<mapsto> JSONSchemaProps ''string'' None,
                         ''kind'' \<mapsto> JSONSchemaProps ''string'' None,
                         ''metadata'' \<mapsto> JSONSchemaProps ''object'' None,
                         ''spec'' \<mapsto> JSONSchemaProps ''object'' (Some Map.empty),
                         ''status'' \<mapsto> JSONSchemaProps ''object'' (Some Map.empty)],
      CompositeResourceSpecProps =
        Some [''compositionRef'' \<mapsto> JSONSchemaProps ''object'' None,
              ''resourceRefs'' \<mapsto> JSONSchemaProps ''array'' None],
      CompositeResourceClaimSpecProps =
        Some [''compositionRef'' \<mapsto> JSONSchemaProps ''object'' None,
              ''resourceRef'' \<mapsto> JSONSchemaProps ''object'' None],
      CompositeResourceStatusProps =
        Some [''conditions'' \<mapsto> JSONSchemaProps ''array'' None],
      CompositeResourcePrinterColumns =
        [\<lparr>Column_Name = ''READY'', Column_Type = ''string'', Column_Format = [],
          Column_Description = [], Column_Priority = 0,
          Column_JSONPath = ''.status.ready''\<rparr>],
      CompositeResourceClaimPrinterColumns =
        [\<lparr>Column_Name = ''READY'', Column_Type = ''string'', Column_Format = [],
          Column_Description = [], Column_Priority = 0,
          Column_JSONPath = ''.status.ready''\<rparr>,
         \<lparr>Column_Name = ''CONNECTION-SECRET'', Column_Type = ''string'', Column_Format = [],
          Column_Description = [], Column_Priority = 0,
          Column_JSONPath = ''.spec.writeConnectionSecretToRef.name''\<rparr>],
      GroupVersionKind = (''apiextensions.crossplane.io/v1alpha1'', ''CompositeResourceDefinition''),
      Unmarshal = example_Unmarshal,
      Quote = (\<lambda>s. CHR 0x22 # s @ [CHR 0x22]),
      growslice = (\<lambda>old n. 2 * old)\<rparr>"

text \<open>The nil slice, and name sets without short names and categories.\<close>

definition nil_slice :: slice where
  "nil_slice = \<lparr>ptr = 0, off = 0, len = 0, cap = 0\<rparr>"

definition names_of :: "string \<Rightarrow> string \<Rightarrow> string \<Rightarrow> string \<Rightarrow> Names" where
  "names_of k ps sg lk =
     \<lparr>Plural = ps, Singular = sg, ShortNames = nil_slice, Kind = k, ListKind = lk,
      Categories = nil_slice\<rparr>"

text \<open>A definition with the given name sets and versions, in group \<open>example.org\<close>.\<close>

definition xrd_of :: "Names \<Rightarrow> Names option \<Rightarrow> Version list \<Rightarrow> CompositeResourceDefinition" where
  "xrd_of n c vs =
     \<lparr>XRD_Name = Plural n @ ''.example.org'', XRD_UID = ''4d2af5c0'',
      XRD_Labels = None, XRD_Annotations = None, Group = ''example.org'',
      XRD_Names = n, ClaimNames = c, Versions = vs\<rparr>"

text \<open>A store with nothing allocated; address 0 stands for nil.\<close>

definition empty_heap :: heap where
  "empty_heap =
     \<lparr>strings = (\<lambda>a i. []),
      columns = (\<lambda>a i. \<lparr>Column_Name = [], Column_Type = [], Column_Format = [],
                         Column_Description = [], Column_Priority = 0, Column_JSONPath = []\<rparr>),
      maps = (\<lambda>a. Map.empty),
      fresh = 1\<rparr>"

text \<open>A version without printer columns.\<close>

definition version_of :: "string \<Rightarrow> bool \<Rightarrow> bool \<Rightarrow> bytes option \<Rightarrow> Version" where
  "version_of n r s v =
     \<lparr>Version_Name = n, Referenceable = r, Served = s, Schema = v,
      AdditionalPrinterColumns = nil_slice\<rparr>"

subsection \<open>The definition as the store holds it\<close>

text \<open>
  The value of a definition in a store: its fields, with every slice replaced by its
  elements and every map reference by the map it refers to.
\<close>

definition Names_value ::
  "heap \<Rightarrow> Names \<Rightarrow> string \<times> string \<times> string list \<times> string \<times> string \<times> string list" where
  "Names_value h n =
     (Plural n, Singular n, view (strings h) (ShortNames n), Kind n, ListKind n,
      view (strings h) (Categories n))"

definition Version_value ::
  "heap \<Rightarrow> Version \<Rightarrow> string \<times> bool \<times> bool \<times> bytes option \<times> Column list" where
  "Version_value h v =
     (Version_Name v, Referenceable v, Served v, Schema v,
      view (columns h) (AdditionalPrinterColumns v))"

definition XRD_value ::
  "heap \<Rightarrow> CompositeResourceDefinition \<Rightarrow>
     string \<times> string \<times> (string \<Rightarrow> string option) option \<times> (string \<Rightarrow> string option) option
       \<times> string \<times> (string \<times> string \<times> string list \<times> string \<times> string \<times> string list)
       \<times> (string \<times> string \<times> string list \<times> string \<times> string \<times> string list) option
       \<times> (string \<times> bool \<times> bool \<times> bytes option \<times> Column list) list" where
  "XRD_value h d =
     (XRD_Name d, XRD_UID d, map_option (maps h) (XRD_Labels d),
      map_option (maps h) (XRD_Annotations d), Group d, Names_value h (XRD_Names d),
      map_option (Names_value h) (ClaimNames d), map (Version_value h) (Versions d))"

text \<open>
  Two slices are apart when one of them has no capacity or they occupy different arrays
  or disjoint parts of one array. A slice is well formed in a store when its length is
  within its capacity and its array, if it has capacity, is allocated.
\<close>

definition apart :: "slice \<Rightarrow> slice \<Rightarrow> bool" where
  "apart s t =
     (cap s = 0 \<or> cap t = 0 \<or> ptr s \<noteq> ptr t \<or> off s + cap s \<le> off t \<or> off t + cap t \<le> off s)"

definition wf_slice :: "heap \<Rightarrow> slice \<Rightarrow> bool" where
  "wf_slice h s = (len s \<le> cap s \<and> (cap s = 0 \<or> ptr s < fresh h))"

text \<open>The \<open>[]string\<close> slices and the column slices of a definition.\<close>

definition string_slices :: "CompositeResourceDefinition \<Rightarrow> slice list" where
  "string_slices d =
     [ShortNames (XRD_Names d), Categories (XRD_Names d)]
     @ (case ClaimNames d of None \<Rightarrow> [] | Some c \<Rightarrow> [ShortNames c, Categories c])"

definition column_slices :: "CompositeResourceDefinition \<Rightarrow> slice list" where
  "column_slices d = map AdditionalPrinterColumns (Versions d)"

text \<open>
  A definition owns its slices in a store: they are well formed, and any two string
  slices, and any two column slices, are the same slice or apart.
\<close>

definition owns :: "heap \<Rightarrow> CompositeResourceDefinition \<Rightarrow> bool" where
  "owns h d =
     (list_all (wf_slice h) (string_slices d) \<and> list_all (wf_slice h) (column_slices d)
      \<and> list_all (\<lambda>s. list_all (\<lambda>t. s = t \<or> apart s t) (string_slices d)) (string_slices d)
      \<and> list_all (\<lambda>s. list_all (\<lambda>t. s = t \<or> apart s t) (column_slices d)) (column_slices d))"

text \<open>
  A store whose array 1 holds the strings \<open>a\<close> and \<open>b\<close> and whose array 2 holds a printer
  column and an empty cell, and a definition whose categories are the first of the two
  strings, with room for one more, while its claim categories are both.
\<close>

definition shared_heap :: heap where
  "shared_heap =
     empty_heap\<lparr>strings := (\<lambda>a i. if a = 1 \<and> i = 0 then ''a''
                                else if a = 1 \<and> i = 1 then ''b'' else []),
                columns := (\<lambda>a i. if a = 2 \<and> i = 0
                                then \<lparr>Column_Name = ''AGE'', Column_Type = ''date'',
                                      Column_Format = [], Column_Description = [],
                                      Column_Priority = 0,
                                      Column_JSONPath = ''.metadata.creationTimestamp''\<rparr>
                                else columns empty_heap a i),
                fresh := 3\<rparr>"

definition shared_xrd :: CompositeResourceDefinition where
  "shared_xrd =
     xrd_of ((names_of ''Foo'' ''xfoos'' [] [])\<lparr>Categories := \<lparr>ptr = 1, off = 0, len = 1, cap = 2\<rparr>\<rparr>)
            (Some ((names_of ''FooClaim'' ''foos'' [] [])
                     \<lparr>Categories := \<lparr>ptr = 1, off = 0, len = 2, cap = 2\<rparr>\<rparr>))
            []"

text \<open>
  The same store with a definition whose categories have array 1 to themselves, and a
  version whose printer columns are the one of array 2, with room for a second.
\<close>

definition owned_xrd :: CompositeResourceDefinition where
  "owned_xrd =
     xrd_of ((names_of ''Foo'' ''xfoos'' [] [])\<lparr>Categories := \<lparr>ptr = 1, off = 0, len = 1, cap = 2\<rparr>\<rparr>)
            (Some (names_of ''FooClaim'' ''foos'' [] []))
            [(version_of ''v1'' True True None)
               \<lparr>AdditionalPrinterColumns := \<lparr>ptr = 2, off = 0, len = 1, cap = 2\<rparr>\<rparr>]"

text \<open>
  The same store with two definitions whose claim names have short names and categories
  in array 1. In the first the categories are the string \<open>a\<close> with room for one more, and
  the short names are the cell behind it, the string \<open>b\<close>. In the second the categories
  have no room left, so that the two slices are apart.
\<close>

definition aliased_claim_xrd :: CompositeResourceDefinition where
  "aliased_claim_xrd =
     xrd_of (names_of ''Foo'' ''xfoos'' [] [])
            (Some ((names_of ''FooClaim'' ''foos'' [] [])
                     \<lparr>ShortNames := \<lparr>ptr = 1, off = 1, len = 1, cap = 1\<rparr>,
                      Categories := \<lparr>ptr = 1, off = 0, len = 1, cap = 2\<rparr>\<rparr>))
            [version_of ''v1'' True True None]"

definition apart_claim_xrd :: CompositeResourceDefinition where
  "apart_claim_xrd =
     xrd_of (names_of ''Foo'' ''xfoos'' [] [])
            (Some ((names_of ''FooClaim'' ''foos'' [] [])
                     \<lparr>ShortNames := \<lparr>ptr = 1, off = 1, len = 1, cap = 1\<rparr>,
                      Categories := \<lparr>ptr = 1, off = 0, len = 1, cap = 1\<rparr>\<rparr>))
            [version_of ''v1'' True True None]"

section \<open>Properties\<close>

subsection \<open>\<open>IsEstablished\<close>\<close>

lemma IsEstablished_range_skip:
  "\<forall>x\<in>set pre. Condition_Type x \<noteq> Established \<Longrightarrow>
     IsEstablished_range (pre @ cs) = IsEstablished_range cs"
  by (induction pre) simp_all

text \<open>
  C3. \<open>IsEstablished\<close> is decided by the first condition of type \<open>Established\<close>: the
  result is true when that condition's status is \<open>True\<close> and false when it is anything
  else; it is false when no condition has that type, and so for the empty list.
\<close>

theorem IsEstablished_first_match:
  "(\<forall>pre c post.
      Conditions s = pre @ c # post \<and> (\<forall>x\<in>set pre. Condition_Type x \<noteq> Established)
        \<and> Condition_Type c = Established
      \<longrightarrow> IsEstablished s = (Condition_Status c = ConditionTrue))
   \<and> ((\<forall>x\<in>set (Conditions s). Condition_Type x \<noteq> Established) \<longrightarrow> \<not> IsEstablished s)
   \<and> (Conditions s = [] \<longrightarrow> \<not> IsEstablished s)"
proof (intro conjI allI impI)
  fix pre c post
  assume a: "Conditions s = pre @ c # post \<and> (\<forall>x\<in>set pre. Condition_Type x \<noteq> Established)
        \<and> Condition_Type c = Established"
  then have "IsEstablished_range (pre @ c # post) = IsEstablished_range (c # post)"
    using IsEstablished_range_skip by blast
  with a show "IsEstablished s = (Condition_Status c = ConditionTrue)"
    by (simp add: IsEstablished_def)
next
  assume "\<forall>x\<in>set (Conditions s). Condition_Type x \<noteq> Established"
  then have "IsEstablished_range (Conditions s @ []) = IsEstablished_range []"
    by (rule IsEstablished_range_skip)
  then show "\<not> IsEstablished s"
    by (simp add: IsEstablished_def)
next
  assume "Conditions s = []"
  then show "\<not> IsEstablished s"
    by (simp add: IsEstablished_def)
qed

text \<open>
  The three cases at concrete lists: the first \<open>Established\<close> condition decides, also when
  a later one disagrees.
\<close>

theorem IsEstablished_first_match_witness:
  "IsEstablished \<lparr>Conditions = [\<lparr>Condition_Type = ''NamesAccepted'', Condition_Status = ''False''\<rparr>,
                                \<lparr>Condition_Type = ''Established'', Condition_Status = ''True''\<rparr>,
                                \<lparr>Condition_Type = ''Established'', Condition_Status = ''False''\<rparr>]\<rparr>
   \<and> \<not> IsEstablished \<lparr>Conditions = [\<lparr>Condition_Type = ''Established'', Condition_Status = ''Unknown''\<rparr>,
                                   \<lparr>Condition_Type = ''Established'', Condition_Status = ''True''\<rparr>]\<rparr>
   \<and> \<not> IsEstablished \<lparr>Conditions = [\<lparr>Condition_Type = ''NamesAccepted'', Condition_Status = ''True''\<rparr>]\<rparr>
   \<and> \<not> IsEstablished \<lparr>Conditions = []\<rparr>"
proof -
  let ?n = "\<lparr>Condition_Type = ''NamesAccepted'', Condition_Status = ''False''\<rparr>"
  let ?t = "\<lparr>Condition_Type = ''Established'', Condition_Status = ''True''\<rparr>"
  let ?f = "\<lparr>Condition_Type = ''Established'', Condition_Status = ''False''\<rparr>"
  let ?u = "\<lparr>Condition_Type = ''Established'', Condition_Status = ''Unknown''\<rparr>"
  let ?a = "\<lparr>Condition_Type = ''NamesAccepted'', Condition_Status = ''True''\<rparr>"
  have 1: "IsEstablished \<lparr>Conditions = [?n, ?t, ?f]\<rparr>"
    using IsEstablished_first_match [of "\<lparr>Conditions = [?n, ?t, ?f]\<rparr>", THEN conjunct1,
        rule_format, of "[?n]" ?t "[?f]"]
    by (simp add: Established_def ConditionTrue_def)
  have 2: "\<not> IsEstablished \<lparr>Conditions = [?u, ?t]\<rparr>"
    using IsEstablished_first_match [of "\<lparr>Conditions = [?u, ?t]\<rparr>", THEN conjunct1,
        rule_format, of "[]" ?u "[?t]"]
    by (simp add: Established_def ConditionTrue_def)
  have 3: "\<not> IsEstablished \<lparr>Conditions = [?a]\<rparr>"
    using IsEstablished_first_match [of "\<lparr>Conditions = [?a]\<rparr>", THEN conjunct2, THEN conjunct1]
    by (simp add: Established_def)
  have 4: "\<not> IsEstablished \<lparr>Conditions = []\<rparr>"
    using IsEstablished_first_match [of "\<lparr>Conditions = []\<rparr>", THEN conjunct2, THEN conjunct2]
    by simp
  from 1 2 3 4 show ?thesis by blast
qed

subsection \<open>\<open>validateClaimNames\<close>\<close>

lemma Sprintf_conflict:
  "Sprintf q errFmtConflictingClaimName a = q a @ '' conflicts with composite resource name''"
  by (simp add: errFmtConflictingClaimName_def)

lemma conflict_not_missing:
  "Errorf q errFmtConflictingClaimName a \<noteq> New errMissingClaimNames"
proof
  assume "Errorf q errFmtConflictingClaimName a = New errMissingClaimNames"
  then have "length (q a @ '' conflicts with composite resource name'') = length errMissingClaimNames"
    by (simp add: Errorf_def Sprintf_conflict)
  then show False
    by (simp add: errMissingClaimNames_def)
qed

text \<open>
  C5. \<open>validateClaimNames\<close> reports exactly the failure that the specification's
  validator finds, which is the first in the order kind, plural, singular, listKind;
  it reports the missing names exactly when there is no claim name set, and it
  succeeds exactly when the set is there and none of the four comparisons matches.
  The function reads the definition and writes nothing: it does not take the store.
\<close>

theorem validateClaimNames_refines_validate:
  "validateClaimNames E d = map_option (reported E) (validate d)
   \<and> (validateClaimNames E d = Some (New errMissingClaimNames)) = (ClaimNames d = None)
   \<and> (validateClaimNames E d = None) =
       (case ClaimNames d of
          None \<Rightarrow> False
        | Some c \<Rightarrow> Kind c \<noteq> Kind (XRD_Names d) \<and> Plural c \<noteq> Plural (XRD_Names d)
            \<and> \<not> (Singular c \<noteq> [] \<and> Singular c = Singular (XRD_Names d))
            \<and> \<not> (ListKind c \<noteq> [] \<and> ListKind c = ListKind (XRD_Names d)))"
proof (intro conjI)
  show "validateClaimNames E d = map_option (reported E) (validate d)"
    by (cases "ClaimNames d") (auto simp: validateClaimNames_def validate_def)
  show "(validateClaimNames E d = Some (New errMissingClaimNames)) = (ClaimNames d = None)"
    by (cases "ClaimNames d") (auto simp: validateClaimNames_def conflict_not_missing)
  show "(validateClaimNames E d = None) =
       (case ClaimNames d of
          None \<Rightarrow> False
        | Some c \<Rightarrow> Kind c \<noteq> Kind (XRD_Names d) \<and> Plural c \<noteq> Plural (XRD_Names d)
            \<and> \<not> (Singular c \<noteq> [] \<and> Singular c = Singular (XRD_Names d))
            \<and> \<not> (ListKind c \<noteq> [] \<and> ListKind c = ListKind (XRD_Names d)))"
    by (cases "ClaimNames d") (auto simp: validateClaimNames_def)
qed

text \<open>
  A definition whose claim plural and claim singular both equal the composite's: the
  plural, which comes first, is the one reported. An empty claim singular equal to
  an empty composite singular is no conflict.
\<close>

theorem validateClaimNames_refines_validate_witness:
  "validateClaimNames example_env
     (xrd_of (names_of ''Foo'' ''foos'' ''foo'' []) (Some (names_of ''FooClaim'' ''foos'' ''foo'' [])) [])
     = Some (reported example_env (NameConflict PluralField ''foos''))
   \<and> validateClaimNames example_env
       (xrd_of (names_of ''Foo'' ''xfoos'' [] []) (Some (names_of ''FooClaim'' ''foos'' [] [])) [])
     = None
   \<and> validateClaimNames example_env (xrd_of (names_of ''Foo'' ''xfoos'' [] []) None [])
     = Some (New errMissingClaimNames)"
proof -
  let ?d1 = "xrd_of (names_of ''Foo'' ''foos'' ''foo'' []) (Some (names_of ''FooClaim'' ''foos'' ''foo'' [])) []"
  let ?d2 = "xrd_of (names_of ''Foo'' ''xfoos'' [] []) (Some (names_of ''FooClaim'' ''foos'' [] [])) []"
  let ?d3 = "xrd_of (names_of ''Foo'' ''xfoos'' [] []) None []"
  have 1: "validate ?d1 = Some (NameConflict PluralField ''foos'')"
    by (simp add: validate_def xrd_of_def names_of_def)
  have 2: "validate ?d2 = None"
    by (simp add: validate_def xrd_of_def names_of_def)
  have 3: "ClaimNames ?d3 = None"
    by (simp add: xrd_of_def)
  have "validateClaimNames example_env ?d1 = Some (reported example_env (NameConflict PluralField ''foos''))"
    using validateClaimNames_refines_validate [of example_env ?d1, THEN conjunct1] 1 by simp
  moreover have "validateClaimNames example_env ?d2 = None"
    using validateClaimNames_refines_validate [of example_env ?d2, THEN conjunct1] 2 by simp
  moreover have "validateClaimNames example_env ?d3 = Some (New errMissingClaimNames)"
    using validateClaimNames_refines_validate [of example_env ?d3, THEN conjunct2, THEN conjunct1] 3
    by simp
  ultimately show ?thesis by blast
qed

text \<open>
  C4, as stated, fails. The message is built from the format
  \<open>%q conflicts with composite resource name\<close> and the offending value alone. For a
  claim kind \<open>Foo\<close> equal to the composite kind the message is
  \<open>"Foo" conflicts with composite resource name\<close>, which does not name the field.
\<close>

theorem conflict_message_names_no_field:
  "Kind (names_of ''Foo'' ''foos'' [] []) = Kind (names_of ''Foo'' ''xfoos'' [] [])
   \<and> validateClaimNames example_env
        (xrd_of (names_of ''Foo'' ''xfoos'' [] []) (Some (names_of ''Foo'' ''foos'' [] [])) [])
      = Some (New (CHR 0x22 # ''Foo'' @ CHR 0x22 # '' conflicts with composite resource name''))
   \<and> \<not> sublist ''kind'' (CHR 0x22 # ''Foo'' @ CHR 0x22 # '' conflicts with composite resource name'')
   \<and> \<not> sublist ''Kind'' (CHR 0x22 # ''Foo'' @ CHR 0x22 # '' conflicts with composite resource name'')"
  by (simp add: validateClaimNames_def xrd_of_def names_of_def example_env_def Errorf_def
      Sprintf_conflict sublist_Cons_right prefix_Cons)

text \<open>
  C4, amended. Whenever the validation of a present claim name set fails, the error
  is the quoted offending value (the verb \<open>%q\<close>) followed by
  \<open> conflicts with composite resource name\<close>, where the offending value is a claim
  kind, plural, non-empty singular or non-empty listKind that equals the composite's.
  The message carries the value and no field name.
\<close>

theorem conflict_message_quotes_value:
  assumes "validateClaimNames E d = Some e" and "ClaimNames d = Some c"
  shows "\<exists>n. e = New (Quote E n @ '' conflicts with composite resource name'')
           \<and> Error e = Quote E n @ '' conflicts with composite resource name''
           \<and> ((n = Kind c \<and> n = Kind (XRD_Names d))
              \<or> (n = Plural c \<and> n = Plural (XRD_Names d))
              \<or> (n = Singular c \<and> n \<noteq> [] \<and> n = Singular (XRD_Names d))
              \<or> (n = ListKind c \<and> n \<noteq> [] \<and> n = ListKind (XRD_Names d)))"
  using assms
  by (auto simp: validateClaimNames_def Errorf_def Sprintf_conflict split: if_splits)

text \<open>A claim plural \<open>foos\<close> equal to the composite plural: the message quotes \<open>foos\<close>.\<close>

theorem conflict_message_quotes_value_witness:
  "\<exists>n. Error (New (CHR 0x22 # ''foos'' @ CHR 0x22 # '' conflicts with composite resource name''))
          = Quote example_env n @ '' conflicts with composite resource name''
      \<and> n = ''foos''"
proof -
  let ?c = "names_of ''FooClaim'' ''foos'' [] []"
  let ?d = "xrd_of (names_of ''Foo'' ''foos'' [] []) (Some ?c) []"
  let ?e = "New (CHR 0x22 # ''foos'' @ CHR 0x22 # '' conflicts with composite resource name'')"
  have v: "validateClaimNames example_env ?d = Some ?e"
    by (simp add: validateClaimNames_def xrd_of_def names_of_def example_env_def Errorf_def
        Sprintf_conflict)
  have c: "ClaimNames ?d = Some ?c"
    by (simp add: xrd_of_def)
  from conflict_message_quotes_value [OF v c] show ?thesis
    by (auto simp: names_of_def xrd_of_def example_env_def)
qed

subsection \<open>\<open>getSpecProps\<close>\<close>

text \<open>
  C9. Without a validation (\<open>v == nil\<close>) \<open>getSpecProps\<close> returns a map without entries
  and no error. When the bytes decode to a document that has no properties under
  \<open>properties.spec\<close> it returns a map without entries and no error; when the document has
  a \<open>spec\<close> property it returns that property's properties. It returns an error exactly
  when a validation is there and its bytes do not decode, and the error is the
  decoder's, wrapped as \<open>cannot parse validation schema\<close>.
\<close>

theorem getSpecProps_cases:
  "(\<exists>m. getSpecProps E None = Inr m \<and> entries m = Map.empty)
   \<and> (\<forall>raw s. Unmarshal E raw = Inr s
          \<and> (\<forall>spec. lookup (Properties s) ''spec'' = Some spec \<longrightarrow> Properties spec = None)
        \<longrightarrow> (\<exists>m. getSpecProps E (Some raw) = Inr m \<and> entries m = Map.empty))
   \<and> (\<forall>raw s spec. Unmarshal E raw = Inr s \<and> lookup (Properties s) ''spec'' = Some spec
        \<longrightarrow> getSpecProps E (Some raw) = Inr (Properties spec))
   \<and> ((\<exists>e. getSpecProps E v = Inl e) = (\<exists>raw err. v = Some raw \<and> Unmarshal E raw = Inl err))
   \<and> (\<forall>raw err. Unmarshal E raw = Inl err
        \<longrightarrow> getSpecProps E (Some raw) = Inl (Wrap err errParseValidation))"
proof (intro conjI allI impI)
  show "\<exists>m. getSpecProps E None = Inr m \<and> entries m = Map.empty"
    by (simp add: getSpecProps_def entries_def)
next
  fix raw s
  assume "Unmarshal E raw = Inr s
          \<and> (\<forall>spec. lookup (Properties s) ''spec'' = Some spec \<longrightarrow> Properties spec = None)"
  then show "\<exists>m. getSpecProps E (Some raw) = Inr m \<and> entries m = Map.empty"
    by (cases "lookup (Properties s) ''spec''") (simp_all add: getSpecProps_def entries_def)
next
  fix raw s spec
  assume "Unmarshal E raw = Inr s \<and> lookup (Properties s) ''spec'' = Some spec"
  then show "getSpecProps E (Some raw) = Inr (Properties spec)"
    by (simp add: getSpecProps_def)
next
  show "(\<exists>e. getSpecProps E v = Inl e) = (\<exists>raw err. v = Some raw \<and> Unmarshal E raw = Inl err)"
    by (auto simp: getSpecProps_def split: option.splits sum.splits)
next
  fix raw err
  assume "Unmarshal E raw = Inl err"
  then show "getSpecProps E (Some raw) = Inl (Wrap err errParseValidation)"
    by (simp add: getSpecProps_def)
qed

lemma example_Unmarshal_foo:
  \<open>example_Unmarshal ''{"properties":{"spec":{"properties":{"foo":{"type":"string"}}}}}''
     = Inr (JSONSchemaProps [] (Some [''spec'' \<mapsto>
                 JSONSchemaProps [] (Some [''foo'' \<mapsto> JSONSchemaProps ''string'' None])]))\<close>
  by (simp add: example_Unmarshal_def)

lemma example_Unmarshal_object:
  \<open>example_Unmarshal ''{"type":"object"}'' = Inr (JSONSchemaProps ''object'' None)\<close>
  by (simp add: example_Unmarshal_def)

lemma example_Unmarshal_malformed:
  \<open>example_Unmarshal ''{'' = Inl (JSONError ''unexpected end of JSON input'')\<close>
  by (simp add: example_Unmarshal_def)

text \<open>
  A document without \<open>properties\<close>, the document of the specification's example with the
  property \<open>foo\<close> of type \<open>string\<close>, a document that ends after its first brace, and a
  validation that is there but has no bytes, which is a document that does not decode.
\<close>

theorem getSpecProps_cases_witness:
  \<open>(\<exists>m. getSpecProps example_env (Some ''{"type":"object"}'') = Inr m \<and> entries m = Map.empty)
   \<and> getSpecProps example_env
        (Some ''{"properties":{"spec":{"properties":{"foo":{"type":"string"}}}}}'')
      = Inr (Some [''foo'' \<mapsto> JSONSchemaProps ''string'' None])
   \<and> (\<exists>e. getSpecProps example_env (Some ''{'') = Inl e)
   \<and> getSpecProps example_env (Some ''{'')
      = Inl (Wrap (JSONError ''unexpected end of JSON input'') errParseValidation)
   \<and> getSpecProps example_env (Some [])
      = Inl (Wrap (JSONError ''unexpected end of JSON input'') errParseValidation)\<close>
proof -
  have u1: \<open>Unmarshal example_env ''{"type":"object"}'' = Inr (JSONSchemaProps ''object'' None)\<close>
    by (simp add: example_env_def example_Unmarshal_object)
  have u2: \<open>Unmarshal example_env ''{"properties":{"spec":{"properties":{"foo":{"type":"string"}}}}}''
     = Inr (JSONSchemaProps [] (Some [''spec'' \<mapsto>
                 JSONSchemaProps [] (Some [''foo'' \<mapsto> JSONSchemaProps ''string'' None])]))\<close>
    by (simp add: example_env_def example_Unmarshal_foo)
  have u3: \<open>Unmarshal example_env ''{'' = Inl (JSONError ''unexpected end of JSON input'')\<close>
    by (simp add: example_env_def example_Unmarshal_malformed)
  note t = getSpecProps_cases [of example_env \<open>Some ''{''\<close>]
  have 1: \<open>\<exists>m. getSpecProps example_env (Some ''{"type":"object"}'') = Inr m \<and> entries m = Map.empty\<close>
    using t [THEN conjunct2, THEN conjunct1, rule_format, of _ "JSONSchemaProps ''object'' None"] u1
    by (simp add: lookup_def)
  have 2: \<open>getSpecProps example_env
        (Some ''{"properties":{"spec":{"properties":{"foo":{"type":"string"}}}}}'')
      = Inr (Some [''foo'' \<mapsto> JSONSchemaProps ''string'' None])\<close>
    using t [THEN conjunct2, THEN conjunct2, THEN conjunct1, rule_format, OF conjI, OF u2]
    by (simp add: lookup_def)
  have 3: \<open>\<exists>e. getSpecProps example_env (Some ''{'') = Inl e\<close>
    using t [THEN conjunct2, THEN conjunct2, THEN conjunct2, THEN conjunct1] u3 by simp
  have 4: \<open>getSpecProps example_env (Some ''{'')
      = Inl (Wrap (JSONError ''unexpected end of JSON input'') errParseValidation)\<close>
    using t [THEN conjunct2, THEN conjunct2, THEN conjunct2, THEN conjunct2, rule_format, OF u3] .
  have u5: "Unmarshal example_env [] = Inl (JSONError ''unexpected end of JSON input'')"
    by (simp add: example_env_def example_Unmarshal_def)
  have 5: "getSpecProps example_env (Some [])
      = Inl (Wrap (JSONError ''unexpected end of JSON input'') errParseValidation)"
    using t [THEN conjunct2, THEN conjunct2, THEN conjunct2, THEN conjunct2, rule_format, OF u5] .
  from 1 2 3 4 5 show ?thesis by blast
qed

subsection \<open>The version loop and the two entry points, case by case\<close>

lemmas run_defs = ForCompositeResource_def ForCompositeResourceClaim_def validateClaimNames_def
  append_strings_def append_columns_def append_slice_def getSpecProps_def assignLayers_def
  assignProperties_def lookup_def entries_def example_env_def empty_heap_def xrd_of_def
  names_of_def version_of_def nil_slice_def example_Unmarshal_def Errorf_def

lemma assignProperties_panic:
  "assignProperties schema key layer = Inl pn \<Longrightarrow> pn = NilMapAssignment"
  by (auto simp: assignProperties_def split: if_splits option.splits)

lemma assignLayers_panic:
  "assignLayers E p sp = Inl pn \<Longrightarrow> pn = NilMapAssignment"
  by (auto simp: assignLayers_def split: sum.splits dest: assignProperties_panic)

lemma versions_range_panic:
  "versions_range E pc sp h vs = (h', Inl (Panic pn)) \<Longrightarrow> pn = NilMapAssignment"
proof (induction vs arbitrary: h h')
  case Nil
  then show ?case by simp
next
  case (Cons v vs)
  then show ?case
    by (auto split: prod.splits sum.splits dest: assignLayers_panic)
qed

lemma versions_range_Cons_Inr:
  assumes "versions_range E pc sp h (v # vs) = (h', Inr cvs)"
  obtains h1 cols p schema cvs' where
    "append_columns E h (AdditionalPrinterColumns v) pc = (h1, cols)"
    "getSpecProps E (Schema v) = Inr p"
    "assignLayers E p sp = Inr schema"
    "versions_range E pc sp h1 vs = (h', Inr cvs')"
    "cvs = \<lparr>CRDVersion_Name = Version_Name v, CRDVersion_Served = Served v,
            Storage = Referenceable v, CRDVersion_AdditionalPrinterColumns = cols,
            OpenAPIV3Schema = schema, SubresourcesStatus = True\<rparr> # cvs'"
proof -
  obtain h1 cols where a: "append_columns E h (AdditionalPrinterColumns v) pc = (h1, cols)"
    by (cases "append_columns E h (AdditionalPrinterColumns v) pc")
  show thesis
  proof (cases "getSpecProps E (Schema v)")
    case (Inl err)
    with assms a show thesis by simp
  next
    case (Inr p)
    show thesis
    proof (cases "assignLayers E p sp")
      case (Inl pn)
      with assms a Inr show thesis by simp
    next
      case schema: (Inr schema)
      obtain h2 r where r: "versions_range E pc sp h1 vs = (h2, r)"
        by (cases "versions_range E pc sp h1 vs")
      show thesis
      proof (cases r)
        case (Inl f)
        with assms a Inr schema r show thesis by simp
      next
        case cvs': (Inr cvs')
        with assms a Inr schema r that [of h1 cols p schema cvs'] show thesis by simp
      qed
    qed
  qed
qed

lemma versions_range_fields:
  "versions_range E pc sp h vs = (h', Inr cvs) \<Longrightarrow>
     map CRDVersion_Name cvs = map Version_Name vs
     \<and> map CRDVersion_Served cvs = map Served vs
     \<and> map Storage cvs = map Referenceable vs"
proof (induction vs arbitrary: h h' cvs)
  case Nil
  then show ?case by simp
next
  case (Cons v vs)
  from Cons.prems show ?case
  proof (rule versions_range_Cons_Inr)
    fix h1 cols p schema cvs'
    assume r: "versions_range E pc sp h1 vs = (h', Inr cvs')"
      and c: "cvs = \<lparr>CRDVersion_Name = Version_Name v, CRDVersion_Served = Served v,
            Storage = Referenceable v, CRDVersion_AdditionalPrinterColumns = cols,
            OpenAPIV3Schema = schema, SubresourcesStatus = True\<rparr> # cvs'"
    from r have "map CRDVersion_Name cvs' = map Version_Name vs
     \<and> map CRDVersion_Served cvs' = map Served vs
     \<and> map Storage cvs' = map Referenceable vs"
      by (rule Cons.IH)
    with c show ?thesis by simp
  qed
qed


lemma versions_range_relabel:
  assumes "\<And>v. Schema (g v) = Schema v"
    and "\<And>v. AdditionalPrinterColumns (g v) = AdditionalPrinterColumns v"
  shows "fst (versions_range E pc sp h (map g vs)) = fst (versions_range E pc sp h vs)
     \<and> isl (snd (versions_range E pc sp h (map g vs))) = isl (snd (versions_range E pc sp h vs))"
proof (induction vs arbitrary: h)
  case Nil
  then show ?case by simp
next
  case (Cons v vs)
  obtain h1 cols where a: "append_columns E h (AdditionalPrinterColumns v) pc = (h1, cols)"
    by (cases "append_columns E h (AdditionalPrinterColumns v) pc")
  show ?case
  proof (cases "getSpecProps E (Schema v)")
    case (Inl err)
    with a show ?thesis by (simp add: assms)
  next
    case (Inr p)
    show ?thesis
    proof (cases "assignLayers E p sp")
      case (Inl pn)
      with a Inr show ?thesis by (simp add: assms)
    next
      case schema: (Inr schema)
      obtain h2 r where r: "versions_range E pc sp h1 vs = (h2, r)"
        by (cases "versions_range E pc sp h1 vs")
      obtain h2' r' where r': "versions_range E pc sp h1 (map g vs) = (h2', r')"
        by (cases "versions_range E pc sp h1 (map g vs)")
      from Cons [of h1] r r' have "h2' = h2" "isl r' = isl r"
        by simp_all
      with a Inr schema r r' show ?thesis
        by (cases r; cases r') (simp_all add: assms)
    qed
  qed
qed


lemma ForCompositeResource_Inr:
  assumes "ForCompositeResource E h d = (h', Inr crd)"
  obtains h1 cats cvs where
    "append_strings E h (Categories (XRD_Names d)) [CategoryComposite] = (h1, cats)"
    "versions_range E (CompositeResourcePrinterColumns E) (CompositeResourceSpecProps E)
       h1 (Versions d) = (h', Inr cvs)"
    "crd = \<lparr>CRD_Name = XRD_Name d, CRD_Labels = XRD_Labels d,
            CRD_Annotations = XRD_Annotations d,
            CRD_OwnerReferences = [AsController_TypedReferenceTo E d],
            Scope = ClusterScoped, CRD_Group = Group d,
            CRD_Names = (XRD_Names d)\<lparr>Categories := cats\<rparr>, CRD_Versions = cvs\<rparr>"
proof -
  obtain h1 cats where
    a: "append_strings E h (Categories (XRD_Names d)) [CategoryComposite] = (h1, cats)"
    by (cases "append_strings E h (Categories (XRD_Names d)) [CategoryComposite]")
  obtain h2 r where r: "versions_range E (CompositeResourcePrinterColumns E)
      (CompositeResourceSpecProps E) h1 (Versions d) = (h2, r)"
    by (cases "versions_range E (CompositeResourcePrinterColumns E)
      (CompositeResourceSpecProps E) h1 (Versions d)")
  show thesis
  proof (cases r)
    case (Inl f)
    with assms a r show thesis by (simp add: ForCompositeResource_def)
  next
    case (Inr cvs)
    with assms a r that [of h1 cats cvs] show thesis by (simp add: ForCompositeResource_def)
  qed
qed

lemma validateClaimNames_None:
  assumes "validateClaimNames E d = None"
  obtains c where "ClaimNames d = Some c"
    "Kind c \<noteq> Kind (XRD_Names d)" "Plural c \<noteq> Plural (XRD_Names d)"
    "Singular c = [] \<or> Singular c \<noteq> Singular (XRD_Names d)"
    "ListKind c = [] \<or> ListKind c \<noteq> ListKind (XRD_Names d)"
  using assms by (cases "ClaimNames d") (auto simp: validateClaimNames_def split: if_splits)

lemma ForCompositeResourceClaim_Inr:
  assumes "ForCompositeResourceClaim E h d = (h', Inr crd)"
  obtains c h1 cats cvs where
    "validateClaimNames E d = None"
    "ClaimNames d = Some c"
    "append_strings E h (Categories c) [CategoryClaim] = (h1, cats)"
    "versions_range E (CompositeResourceClaimPrinterColumns E) (CompositeResourceClaimSpecProps E)
       h1 (Versions d) = (h', Inr cvs)"
    "crd = \<lparr>CRD_Name = Plural c @ ''.'' @ Group d, CRD_Labels = XRD_Labels d,
            CRD_Annotations = XRD_Annotations d,
            CRD_OwnerReferences = [AsController_TypedReferenceTo E d],
            Scope = NamespaceScoped, CRD_Group = Group d,
            CRD_Names = c\<lparr>Categories := cats\<rparr>, CRD_Versions = cvs\<rparr>"
proof (cases "validateClaimNames E d")
  case (Some err)
  with assms show thesis by (simp add: ForCompositeResourceClaim_def)
next
  case None
  then obtain c where c: "ClaimNames d = Some c"
    by (rule validateClaimNames_None)
  obtain h1 cats where a: "append_strings E h (Categories c) [CategoryClaim] = (h1, cats)"
    by (cases "append_strings E h (Categories c) [CategoryClaim]")
  obtain h2 r where r: "versions_range E (CompositeResourceClaimPrinterColumns E)
      (CompositeResourceClaimSpecProps E) h1 (Versions d) = (h2, r)"
    by (cases "versions_range E (CompositeResourceClaimPrinterColumns E)
      (CompositeResourceClaimSpecProps E) h1 (Versions d)")
  show thesis
  proof (cases r)
    case (Inl f)
    with assms None c a r show thesis by (simp add: ForCompositeResourceClaim_def)
  next
    case (Inr cvs)
    with assms None c a r that [of c h1 cats cvs] show thesis
      by (simp add: ForCompositeResourceClaim_def)
  qed
qed

lemma nth_of_map_eq:
  "map f xs = map g ys \<Longrightarrow> i < length ys \<Longrightarrow> f (xs ! i) = g (ys ! i)"
  by (metis length_map nth_map)

lemma ForCompositeResource_relabel:
  assumes "\<And>v. Schema (g v) = Schema v"
    and "\<And>v. AdditionalPrinterColumns (g v) = AdditionalPrinterColumns v"
  shows "isl (snd (ForCompositeResource E h (d\<lparr>Versions := map g (Versions d)\<rparr>)))
      = isl (snd (ForCompositeResource E h d))"
proof -
  let ?pc = "CompositeResourcePrinterColumns E" and ?sp = "CompositeResourceSpecProps E"
  obtain h1 cats where
    a: "append_strings E h (Categories (XRD_Names d)) [CategoryComposite] = (h1, cats)"
    by (cases "append_strings E h (Categories (XRD_Names d)) [CategoryComposite]")
  obtain h2 r where r: "versions_range E ?pc ?sp h1 (Versions d) = (h2, r)"
    by (cases "versions_range E ?pc ?sp h1 (Versions d)")
  obtain h2' r' where r': "versions_range E ?pc ?sp h1 (map g (Versions d)) = (h2', r')"
    by (cases "versions_range E ?pc ?sp h1 (map g (Versions d))")
  from versions_range_relabel [of g E ?pc ?sp h1 "Versions d", OF assms] r r'
  have "isl r' = isl r" by simp
  with a r r' show ?thesis
    by (cases r; cases r') (simp_all add: ForCompositeResource_def)
qed

lemma ForCompositeResourceClaim_relabel:
  assumes "\<And>v. Schema (g v) = Schema v"
    and "\<And>v. AdditionalPrinterColumns (g v) = AdditionalPrinterColumns v"
  shows "isl (snd (ForCompositeResourceClaim E h (d\<lparr>Versions := map g (Versions d)\<rparr>)))
      = isl (snd (ForCompositeResourceClaim E h d))"
proof -
  let ?pc = "CompositeResourceClaimPrinterColumns E" and ?sp = "CompositeResourceClaimSpecProps E"
  let ?d = "d\<lparr>Versions := map g (Versions d)\<rparr>"
  have v: "validateClaimNames E ?d = validateClaimNames E d"
    by (cases "ClaimNames d") (simp_all add: validateClaimNames_def)
  show ?thesis
  proof (cases "validateClaimNames E d")
    case (Some err)
    with v show ?thesis by (simp add: ForCompositeResourceClaim_def)
  next
    case None
    then obtain c where c: "ClaimNames d = Some c"
      by (rule validateClaimNames_None)
    obtain h1 cats where a: "append_strings E h (Categories c) [CategoryClaim] = (h1, cats)"
      by (cases "append_strings E h (Categories c) [CategoryClaim]")
    obtain h2 r where r: "versions_range E ?pc ?sp h1 (Versions d) = (h2, r)"
      by (cases "versions_range E ?pc ?sp h1 (Versions d)")
    obtain h2' r' where r': "versions_range E ?pc ?sp h1 (map g (Versions d)) = (h2', r')"
      by (cases "versions_range E ?pc ?sp h1 (map g (Versions d))")
    from versions_range_relabel [of g E ?pc ?sp h1 "Versions d", OF assms] r r'
    have "isl r' = isl r" by simp
    with None v c a r r' show ?thesis
      by (cases r; cases r') (simp_all add: ForCompositeResourceClaim_def)
  qed
qed

subsection \<open>The generated versions\<close>

text \<open>
  C7. When either function succeeds, the generated versions are as many as the
  definition's versions and in their order, and the i-th takes its name and its served
  flag from the i-th version and its storage flag from that version's referenceable
  flag. Nothing is checked about names or flags: replacing the names, served flags and
  referenceable flags of the versions by any others does not change whether a call
  fails.
\<close>

theorem versions_one_to_one:
  "(ForCompositeResource E h d = (h', Inr crd) \<or> ForCompositeResourceClaim E h d = (h', Inr crd)
      \<longrightarrow> length (CRD_Versions crd) = length (Versions d)
        \<and> (\<forall>i<length (Versions d).
              CRDVersion_Name (CRD_Versions crd ! i) = Version_Name (Versions d ! i)
            \<and> CRDVersion_Served (CRD_Versions crd ! i) = Served (Versions d ! i)
            \<and> Storage (CRD_Versions crd ! i) = Referenceable (Versions d ! i)))
   \<and> isl (snd (ForCompositeResource E h
        (d\<lparr>Versions := map (\<lambda>v. v\<lparr>Version_Name := n v, Served := s v, Referenceable := r v\<rparr>)
              (Versions d)\<rparr>)))
      = isl (snd (ForCompositeResource E h d))
   \<and> isl (snd (ForCompositeResourceClaim E h
        (d\<lparr>Versions := map (\<lambda>v. v\<lparr>Version_Name := n v, Served := s v, Referenceable := r v\<rparr>)
              (Versions d)\<rparr>)))
      = isl (snd (ForCompositeResourceClaim E h d))"
proof (intro conjI impI)
  assume "ForCompositeResource E h d = (h', Inr crd) \<or> ForCompositeResourceClaim E h d = (h', Inr crd)"
  then have "\<exists>pc sp h1. versions_range E pc sp h1 (Versions d) = (h', Inr (CRD_Versions crd))"
  proof
    assume "ForCompositeResource E h d = (h', Inr crd)"
    then show ?thesis
    proof (rule ForCompositeResource_Inr)
      fix h1 cats cvs
      assume "versions_range E (CompositeResourcePrinterColumns E) (CompositeResourceSpecProps E)
         h1 (Versions d) = (h', Inr cvs)"
        and "crd = \<lparr>CRD_Name = XRD_Name d, CRD_Labels = XRD_Labels d,
            CRD_Annotations = XRD_Annotations d,
            CRD_OwnerReferences = [AsController_TypedReferenceTo E d],
            Scope = ClusterScoped, CRD_Group = Group d,
            CRD_Names = (XRD_Names d)\<lparr>Categories := cats\<rparr>, CRD_Versions = cvs\<rparr>"
      then have "versions_range E (CompositeResourcePrinterColumns E) (CompositeResourceSpecProps E)
         h1 (Versions d) = (h', Inr (CRD_Versions crd))"
        by simp
      then show ?thesis by blast
    qed
  next
    assume "ForCompositeResourceClaim E h d = (h', Inr crd)"
    then show ?thesis
    proof (rule ForCompositeResourceClaim_Inr)
      fix c h1 cats cvs
      assume "versions_range E (CompositeResourceClaimPrinterColumns E)
         (CompositeResourceClaimSpecProps E) h1 (Versions d) = (h', Inr cvs)"
        and "crd = \<lparr>CRD_Name = Plural c @ ''.'' @ Group d, CRD_Labels = XRD_Labels d,
            CRD_Annotations = XRD_Annotations d,
            CRD_OwnerReferences = [AsController_TypedReferenceTo E d],
            Scope = NamespaceScoped, CRD_Group = Group d,
            CRD_Names = c\<lparr>Categories := cats\<rparr>, CRD_Versions = cvs\<rparr>"
      then have "versions_range E (CompositeResourceClaimPrinterColumns E)
         (CompositeResourceClaimSpecProps E) h1 (Versions d) = (h', Inr (CRD_Versions crd))"
        by simp
      then show ?thesis by blast
    qed
  qed
  then have m: "map CRDVersion_Name (CRD_Versions crd) = map Version_Name (Versions d)"
    "map CRDVersion_Served (CRD_Versions crd) = map Served (Versions d)"
    "map Storage (CRD_Versions crd) = map Referenceable (Versions d)"
    using versions_range_fields by blast+
  from m(1) show "length (CRD_Versions crd) = length (Versions d)"
    using map_eq_imp_length_eq by blast
  show "\<forall>i<length (Versions d).
              CRDVersion_Name (CRD_Versions crd ! i) = Version_Name (Versions d ! i)
            \<and> CRDVersion_Served (CRD_Versions crd ! i) = Served (Versions d ! i)
            \<and> Storage (CRD_Versions crd ! i) = Referenceable (Versions d ! i)"
    using nth_of_map_eq [OF m(1)] nth_of_map_eq [OF m(2)] nth_of_map_eq [OF m(3)] by blast
next
  show "isl (snd (ForCompositeResource E h
        (d\<lparr>Versions := map (\<lambda>v. v\<lparr>Version_Name := n v, Served := s v, Referenceable := r v\<rparr>)
              (Versions d)\<rparr>)))
      = isl (snd (ForCompositeResource E h d))"
    by (rule ForCompositeResource_relabel) simp_all
next
  show "isl (snd (ForCompositeResourceClaim E h
        (d\<lparr>Versions := map (\<lambda>v. v\<lparr>Version_Name := n v, Served := s v, Referenceable := r v\<rparr>)
              (Versions d)\<rparr>)))
      = isl (snd (ForCompositeResourceClaim E h d))"
    by (rule ForCompositeResourceClaim_relabel) simp_all
qed

text \<open>
  Two versions of the same name, both referenceable: each of the two functions generates
  its definition, with both versions, both marked as storage.
\<close>

theorem versions_one_to_one_witness:
  "(\<exists>h' crd. ForCompositeResource example_env empty_heap
       (xrd_of (names_of ''Foo'' ''xfoos'' [] []) (Some (names_of ''FooClaim'' ''foos'' [] []))
          [version_of ''v1'' True True None, version_of ''v1'' True False None])
       = (h', Inr crd)
     \<and> length (CRD_Versions crd) = 2
     \<and> CRDVersion_Name (CRD_Versions crd ! 0) = ''v1'' \<and> CRDVersion_Name (CRD_Versions crd ! 1) = ''v1''
     \<and> CRDVersion_Served (CRD_Versions crd ! 0) \<and> \<not> CRDVersion_Served (CRD_Versions crd ! 1)
     \<and> Storage (CRD_Versions crd ! 0) \<and> Storage (CRD_Versions crd ! 1))
   \<and> (\<exists>h' crd. ForCompositeResourceClaim example_env empty_heap
       (xrd_of (names_of ''Foo'' ''xfoos'' [] []) (Some (names_of ''FooClaim'' ''foos'' [] []))
          [version_of ''v1'' True True None, version_of ''v1'' True False None])
       = (h', Inr crd)
     \<and> length (CRD_Versions crd) = 2
     \<and> CRDVersion_Name (CRD_Versions crd ! 0) = ''v1'' \<and> CRDVersion_Name (CRD_Versions crd ! 1) = ''v1''
     \<and> CRDVersion_Served (CRD_Versions crd ! 0) \<and> \<not> CRDVersion_Served (CRD_Versions crd ! 1)
     \<and> Storage (CRD_Versions crd ! 0) \<and> Storage (CRD_Versions crd ! 1))"
proof -
  let ?d = "xrd_of (names_of ''Foo'' ''xfoos'' [] []) (Some (names_of ''FooClaim'' ''foos'' [] []))
          [version_of ''v1'' True True None, version_of ''v1'' True False None]"
  have v: "Versions ?d = [version_of ''v1'' True True None, version_of ''v1'' True False None]"
    by (simp add: xrd_of_def)
  have i: "(0::nat) < length (Versions ?d)" "(1::nat) < length (Versions ?d)"
    by (simp_all add: v)
  have "\<exists>h' crd. ForCompositeResource example_env empty_heap ?d = (h', Inr crd)"
    by (simp add: run_defs)
  then obtain h1 crd1 where r1: "ForCompositeResource example_env empty_heap ?d = (h1, Inr crd1)"
    by blast
  have "\<exists>h' crd. ForCompositeResourceClaim example_env empty_heap ?d = (h', Inr crd)"
    by (simp add: run_defs)
  then obtain h2 crd2 where r2: "ForCompositeResourceClaim example_env empty_heap ?d = (h2, Inr crd2)"
    by blast
  note t1 = versions_one_to_one [of example_env empty_heap ?d h1 crd1, THEN conjunct1, rule_format,
      OF disjI1, OF r1]
  note t2 = versions_one_to_one [of example_env empty_heap ?d h2 crd2, THEN conjunct1, rule_format,
      OF disjI2, OF r2]
  from t1 [THEN conjunct1] have l1: "length (CRD_Versions crd1) = 2"
    by (simp add: v)
  from t2 [THEN conjunct1] have l2: "length (CRD_Versions crd2) = 2"
    by (simp add: v)
  from i t1 [THEN conjunct2, rule_format, of 0] t1 [THEN conjunct2, rule_format, of 1]
  have f1: "CRDVersion_Name (CRD_Versions crd1 ! 0) = ''v1'' \<and> CRDVersion_Name (CRD_Versions crd1 ! 1) = ''v1''
     \<and> CRDVersion_Served (CRD_Versions crd1 ! 0) \<and> \<not> CRDVersion_Served (CRD_Versions crd1 ! 1)
     \<and> Storage (CRD_Versions crd1 ! 0) \<and> Storage (CRD_Versions crd1 ! 1)"
    by (simp add: xrd_of_def version_of_def)
  from i t2 [THEN conjunct2, rule_format, of 0] t2 [THEN conjunct2, rule_format, of 1]
  have f2: "CRDVersion_Name (CRD_Versions crd2 ! 0) = ''v1'' \<and> CRDVersion_Name (CRD_Versions crd2 ! 1) = ''v1''
     \<and> CRDVersion_Served (CRD_Versions crd2 ! 0) \<and> \<not> CRDVersion_Served (CRD_Versions crd2 ! 1)
     \<and> Storage (CRD_Versions crd2 ! 0) \<and> Storage (CRD_Versions crd2 ! 1)"
    by (simp add: xrd_of_def version_of_def)
  from r1 l1 f1 r2 l2 f2 show ?thesis by blast
qed

subsection \<open>The claim names behind the pointer\<close>

text \<open>
  C10. \<open>ForCompositeResourceClaim\<close> never panics on a nil pointer: it reads through
  \<open>xrd.Spec.ClaimNames\<close> only after \<open>validateClaimNames\<close> has returned nil, and then the
  pointer is not nil.
\<close>

theorem ClaimNames_dereference_safe:
  "snd (ForCompositeResourceClaim E h d) \<noteq> Inl (Panic NilPointerDereference)
   \<and> (validateClaimNames E d = None \<longrightarrow> ClaimNames d \<noteq> None)"
proof
  show "validateClaimNames E d = None \<longrightarrow> ClaimNames d \<noteq> None"
    by (cases "ClaimNames d") (simp_all add: validateClaimNames_def)
  show "snd (ForCompositeResourceClaim E h d) \<noteq> Inl (Panic NilPointerDereference)"
  proof
    assume a: "snd (ForCompositeResourceClaim E h d) = Inl (Panic NilPointerDereference)"
    show False
    proof (cases "validateClaimNames E d")
      case (Some err)
      with a show False by (simp add: ForCompositeResourceClaim_def)
    next
      case None
      then obtain c where c: "ClaimNames d = Some c"
        by (rule validateClaimNames_None)
      obtain h1 cats where s: "append_strings E h (Categories c) [CategoryClaim] = (h1, cats)"
        by (cases "append_strings E h (Categories c) [CategoryClaim]")
      obtain h2 r where r: "versions_range E (CompositeResourceClaimPrinterColumns E)
          (CompositeResourceClaimSpecProps E) h1 (Versions d) = (h2, r)"
        by (cases "versions_range E (CompositeResourceClaimPrinterColumns E)
          (CompositeResourceClaimSpecProps E) h1 (Versions d)")
      from a None c s r have "r = Inl (Panic NilPointerDereference)"
        by (cases r) (simp_all add: ForCompositeResourceClaim_def)
      with r show False
        using versions_range_panic by blast
    qed
  qed
qed

text \<open>A definition with valid claim names, and one without claim names.\<close>

theorem ClaimNames_dereference_safe_witness:
  "ClaimNames (xrd_of (names_of ''Foo'' ''xfoos'' [] []) (Some (names_of ''FooClaim'' ''foos'' [] [])) [])
     \<noteq> None
   \<and> snd (ForCompositeResourceClaim example_env empty_heap
         (xrd_of (names_of ''Foo'' ''xfoos'' [] []) None [version_of ''v1'' True True None]))
     \<noteq> Inl (Panic NilPointerDereference)"
proof -
  let ?d = "xrd_of (names_of ''Foo'' ''xfoos'' [] []) (Some (names_of ''FooClaim'' ''foos'' [] [])) []"
  have "validateClaimNames example_env ?d = None"
    by (simp add: validateClaimNames_def xrd_of_def names_of_def)
  with ClaimNames_dereference_safe [of example_env empty_heap ?d]
  have "ClaimNames ?d \<noteq> None"
    by blast
  with ClaimNames_dereference_safe [of example_env empty_heap
      "xrd_of (names_of ''Foo'' ''xfoos'' [] []) None [version_of ''v1'' True True None]"]
  show ?thesis by blast
qed

subsection \<open>The layers of a generated schema\<close>

lemma assignProperties_Inr:
  assumes "assignProperties schema key layer = Inr s'"
  shows "propertiesUnder s' key = propertiesUnder schema key ++ entries layer"
    and "\<And>k. k \<noteq> key \<Longrightarrow> lookup (Properties s') k = lookup (Properties schema) k"
    and "Type s' = Type schema"
proof -
  show "propertiesUnder s' key = propertiesUnder schema key ++ entries layer"
  proof (cases "entries layer = Map.empty")
    case True
    with assms show ?thesis by (simp add: assignProperties_def)
  next
    case False
    with assms show ?thesis
      by (auto simp: assignProperties_def propertiesUnder_def lookup_def entries_def
          split: option.splits)
  qed
  show "\<And>k. k \<noteq> key \<Longrightarrow> lookup (Properties s') k = lookup (Properties schema) k"
  proof -
    fix k :: string
    assume "k \<noteq> key"
    with assms show "lookup (Properties s') k = lookup (Properties schema) k"
      by (cases "entries layer = Map.empty")
        (auto simp: assignProperties_def lookup_def entries_def split: option.splits)
  qed
  show "Type s' = Type schema"
    using assms
    by (cases "entries layer = Map.empty")
      (auto simp: assignProperties_def split: option.splits)
qed

lemma propertiesUnder_cong:
  "lookup (Properties s') k = lookup (Properties s) k \<Longrightarrow> propertiesUnder s' k = propertiesUnder s k"
  by (simp add: propertiesUnder_def)

lemma assignLayers_Inr:
  assumes "assignLayers E p sp = Inr s"
  shows "propertiesUnder s ''spec''
           = propertiesUnder (JSONSchemaProps ''object'' (BaseProps E)) ''spec'' ++ entries p ++ entries sp"
    and "propertiesUnder s ''status''
           = propertiesUnder (JSONSchemaProps ''object'' (BaseProps E)) ''status''
               ++ entries (CompositeResourceStatusProps E)"
    and "\<And>k. k \<noteq> ''spec'' \<Longrightarrow> k \<noteq> ''status'' \<Longrightarrow> lookup (Properties s) k = lookup (BaseProps E) k"
    and "Type s = ''object''"
proof -
  let ?b = "JSONSchemaProps ''object'' (BaseProps E)"
  from assms obtain s1 s2 where
    1: "assignProperties ?b ''spec'' p = Inr s1" and
    2: "assignProperties s1 ''spec'' sp = Inr s2" and
    3: "assignProperties s2 ''status'' (CompositeResourceStatusProps E) = Inr s"
    by (auto simp: assignLayers_def split: sum.splits)
  have ne: "''spec'' \<noteq> ''status''" "''status'' \<noteq> ''spec''" by simp_all
  have "propertiesUnder s ''spec'' = propertiesUnder s2 ''spec''"
    using assignProperties_Inr(2) [OF 3 ne(1)] by (rule propertiesUnder_cong)
  also have "\<dots> = propertiesUnder s1 ''spec'' ++ entries sp"
    using 2 by (rule assignProperties_Inr(1))
  also have "propertiesUnder s1 ''spec'' = propertiesUnder ?b ''spec'' ++ entries p"
    using 1 by (rule assignProperties_Inr(1))
  finally show "propertiesUnder s ''spec'' = propertiesUnder ?b ''spec'' ++ entries p ++ entries sp" .
  have "propertiesUnder s2 ''status'' = propertiesUnder s1 ''status''"
    using assignProperties_Inr(2) [OF 2 ne(2)] by (rule propertiesUnder_cong)
  also have "\<dots> = propertiesUnder ?b ''status''"
    using assignProperties_Inr(2) [OF 1 ne(2)] by (rule propertiesUnder_cong)
  finally show "propertiesUnder s ''status''
           = propertiesUnder ?b ''status'' ++ entries (CompositeResourceStatusProps E)"
    using assignProperties_Inr(1) [OF 3] by simp
  show "\<And>k. k \<noteq> ''spec'' \<Longrightarrow> k \<noteq> ''status'' \<Longrightarrow> lookup (Properties s) k = lookup (BaseProps E) k"
    using assignProperties_Inr(2) [OF 1] assignProperties_Inr(2) [OF 2] assignProperties_Inr(2) [OF 3]
    by simp
  show "Type s = ''object''"
    using assignProperties_Inr(3) [OF 1] assignProperties_Inr(3) [OF 2] assignProperties_Inr(3) [OF 3]
    by simp
qed

lemma versions_range_schema:
  "versions_range E pc sp h vs = (h', Inr cvs) \<Longrightarrow> i < length vs \<Longrightarrow>
     \<exists>p. getSpecProps E (Schema (vs ! i)) = Inr p
       \<and> assignLayers E p sp = Inr (OpenAPIV3Schema (cvs ! i))"
proof (induction vs arbitrary: h cvs i)
  case Nil
  then show ?case by simp
next
  case (Cons v vs)
  from Cons.prems(1) show ?case
  proof (rule versions_range_Cons_Inr)
    fix h1 cols p schema cvs'
    assume p: "getSpecProps E (Schema v) = Inr p"
      and s: "assignLayers E p sp = Inr schema"
      and r: "versions_range E pc sp h1 vs = (h', Inr cvs')"
      and c: "cvs = \<lparr>CRDVersion_Name = Version_Name v, CRDVersion_Served = Served v,
            Storage = Referenceable v, CRDVersion_AdditionalPrinterColumns = cols,
            OpenAPIV3Schema = schema, SubresourcesStatus = True\<rparr> # cvs'"
    show ?thesis
    proof (cases i)
      case 0
      with p s c show ?thesis by simp
    next
      case (Suc j)
      with Cons.prems(2) have "j < length vs" by simp
      with r have "\<exists>p. getSpecProps E (Schema (vs ! j)) = Inr p
          \<and> assignLayers E p sp = Inr (OpenAPIV3Schema (cvs' ! j))"
        by (rule Cons.IH)
      with Suc c show ?thesis by simp
    qed
  qed
qed

text \<open>
  C1. When either function succeeds, the schema of the i-th generated version holds,
  under \<open>spec\<close>, the base properties overwritten by the properties parsed from the i-th
  version's schema, overwritten in turn by the standard spec properties of the function
  (\<open>sp\<close>); under \<open>status\<close>, the base properties overwritten by the standard status
  properties; and every other property as the base has it. So a key of the standard spec
  properties carries the standard value whatever the caller supplied, a caller's key
  that is not a standard one carries the caller's value, and neither the caller's nor the
  standard spec properties reach \<open>status\<close>, nor the status properties \<open>spec\<close>.
\<close>

theorem schema_layers_in_order:
  assumes "(ForCompositeResource E h d = (h', Inr crd) \<and> sp = CompositeResourceSpecProps E)
         \<or> (ForCompositeResourceClaim E h d = (h', Inr crd) \<and> sp = CompositeResourceClaimSpecProps E)"
    and "i < length (Versions d)"
  shows "\<exists>p. getSpecProps E (Schema (Versions d ! i)) = Inr p
     \<and> propertiesUnder (OpenAPIV3Schema (CRD_Versions crd ! i)) ''spec''
         = propertiesUnder (JSONSchemaProps ''object'' (BaseProps E)) ''spec'' ++ entries p ++ entries sp
     \<and> propertiesUnder (OpenAPIV3Schema (CRD_Versions crd ! i)) ''status''
         = propertiesUnder (JSONSchemaProps ''object'' (BaseProps E)) ''status''
             ++ entries (CompositeResourceStatusProps E)
     \<and> (\<forall>k. k \<noteq> ''spec'' \<and> k \<noteq> ''status''
           \<longrightarrow> lookup (Properties (OpenAPIV3Schema (CRD_Versions crd ! i))) k = lookup (BaseProps E) k)
     \<and> (\<forall>k v. entries sp k = Some v
           \<longrightarrow> propertiesUnder (OpenAPIV3Schema (CRD_Versions crd ! i)) ''spec'' k = Some v)
     \<and> (\<forall>k v. entries p k = Some v \<and> entries sp k = None
           \<longrightarrow> propertiesUnder (OpenAPIV3Schema (CRD_Versions crd ! i)) ''spec'' k = Some v)"
proof -
  from assms(1) have "\<exists>pc h1. versions_range E pc sp h1 (Versions d) = (h', Inr (CRD_Versions crd))"
  proof
    assume a: "ForCompositeResource E h d = (h', Inr crd) \<and> sp = CompositeResourceSpecProps E"
    then have "ForCompositeResource E h d = (h', Inr crd)" ..
    then show ?thesis
    proof (rule ForCompositeResource_Inr)
      fix h1 cats cvs
      assume "versions_range E (CompositeResourcePrinterColumns E) (CompositeResourceSpecProps E)
         h1 (Versions d) = (h', Inr cvs)"
        and "crd = \<lparr>CRD_Name = XRD_Name d, CRD_Labels = XRD_Labels d,
            CRD_Annotations = XRD_Annotations d,
            CRD_OwnerReferences = [AsController_TypedReferenceTo E d],
            Scope = ClusterScoped, CRD_Group = Group d,
            CRD_Names = (XRD_Names d)\<lparr>Categories := cats\<rparr>, CRD_Versions = cvs\<rparr>"
      with a have "versions_range E (CompositeResourcePrinterColumns E) sp
         h1 (Versions d) = (h', Inr (CRD_Versions crd))"
        by simp
      then show ?thesis by blast
    qed
  next
    assume a: "ForCompositeResourceClaim E h d = (h', Inr crd) \<and> sp = CompositeResourceClaimSpecProps E"
    then have "ForCompositeResourceClaim E h d = (h', Inr crd)" ..
    then show ?thesis
    proof (rule ForCompositeResourceClaim_Inr)
      fix c h1 cats cvs
      assume "versions_range E (CompositeResourceClaimPrinterColumns E)
         (CompositeResourceClaimSpecProps E) h1 (Versions d) = (h', Inr cvs)"
        and "crd = \<lparr>CRD_Name = Plural c @ ''.'' @ Group d, CRD_Labels = XRD_Labels d,
            CRD_Annotations = XRD_Annotations d,
            CRD_OwnerReferences = [AsController_TypedReferenceTo E d],
            Scope = NamespaceScoped, CRD_Group = Group d,
            CRD_Names = c\<lparr>Categories := cats\<rparr>, CRD_Versions = cvs\<rparr>"
      with a have "versions_range E (CompositeResourceClaimPrinterColumns E) sp
         h1 (Versions d) = (h', Inr (CRD_Versions crd))"
        by simp
      then show ?thesis by blast
    qed
  qed
  then obtain pc h1 where "versions_range E pc sp h1 (Versions d) = (h', Inr (CRD_Versions crd))"
    by blast
  from versions_range_schema [OF this assms(2)] obtain p where
    p: "getSpecProps E (Schema (Versions d ! i)) = Inr p" and
    l: "assignLayers E p sp = Inr (OpenAPIV3Schema (CRD_Versions crd ! i))"
    by blast
  let ?S = "OpenAPIV3Schema (CRD_Versions crd ! i)"
  let ?B = "JSONSchemaProps ''object'' (BaseProps E)"
  have spec: "propertiesUnder ?S ''spec'' = propertiesUnder ?B ''spec'' ++ entries p ++ entries sp"
    using l by (rule assignLayers_Inr(1))
  have status: "propertiesUnder ?S ''status''
      = propertiesUnder ?B ''status'' ++ entries (CompositeResourceStatusProps E)"
    using l by (rule assignLayers_Inr(2))
  have other: "\<forall>k. k \<noteq> ''spec'' \<and> k \<noteq> ''status'' \<longrightarrow> lookup (Properties ?S) k = lookup (BaseProps E) k"
    using assignLayers_Inr(3) [OF l] by blast
  have wins: "\<forall>k v. entries sp k = Some v \<longrightarrow> propertiesUnder ?S ''spec'' k = Some v"
    by (simp add: spec map_add_Some_iff)
  have keeps: "\<forall>k v. entries p k = Some v \<and> entries sp k = None
      \<longrightarrow> propertiesUnder ?S ''spec'' k = Some v"
    by (simp add: spec map_add_Some_iff)
  from p spec status other wins keeps show ?thesis by blast
qed

text \<open>
  A version whose schema declares \<open>size\<close> and \<open>compositionRef\<close>, the latter also a standard
  spec property of both functions. In the composite's definition and in the claim's,
  \<open>compositionRef\<close> carries the standard value, \<open>size\<close> the caller's, the function's own
  standard property (\<open>resourceRefs\<close>, \<open>resourceRef\<close>) is there, and \<open>conditions\<close> is found
  under \<open>status\<close> only.
\<close>

theorem schema_layers_in_order_witness:
  \<open>(\<exists>h' crd. ForCompositeResource example_env empty_heap
       (xrd_of (names_of ''Foo'' ''xfoos'' [] []) (Some (names_of ''FooClaim'' ''foos'' [] []))
          [version_of ''v1'' True True
             (Some ''{"properties":{"spec":{"properties":{"size":{"type":"integer"},"compositionRef":{"type":"string"}}}}}'')])
       = (h', Inr crd)
     \<and> propertiesUnder (OpenAPIV3Schema (CRD_Versions crd ! 0)) ''spec'' ''compositionRef''
         = Some (JSONSchemaProps ''object'' None)
     \<and> propertiesUnder (OpenAPIV3Schema (CRD_Versions crd ! 0)) ''spec'' ''size''
         = Some (JSONSchemaProps ''integer'' None)
     \<and> propertiesUnder (OpenAPIV3Schema (CRD_Versions crd ! 0)) ''spec'' ''resourceRefs''
         = Some (JSONSchemaProps ''array'' None)
     \<and> propertiesUnder (OpenAPIV3Schema (CRD_Versions crd ! 0)) ''spec'' ''conditions'' = None
     \<and> propertiesUnder (OpenAPIV3Schema (CRD_Versions crd ! 0)) ''status'' ''conditions''
         = Some (JSONSchemaProps ''array'' None)
     \<and> propertiesUnder (OpenAPIV3Schema (CRD_Versions crd ! 0)) ''status'' ''size'' = None
     \<and> propertiesUnder (OpenAPIV3Schema (CRD_Versions crd ! 0)) ''status'' ''compositionRef'' = None)
   \<and> (\<exists>h' crd. ForCompositeResourceClaim example_env empty_heap
       (xrd_of (names_of ''Foo'' ''xfoos'' [] []) (Some (names_of ''FooClaim'' ''foos'' [] []))
          [version_of ''v1'' True True
             (Some ''{"properties":{"spec":{"properties":{"size":{"type":"integer"},"compositionRef":{"type":"string"}}}}}'')])
       = (h', Inr crd)
     \<and> propertiesUnder (OpenAPIV3Schema (CRD_Versions crd ! 0)) ''spec'' ''compositionRef''
         = Some (JSONSchemaProps ''object'' None)
     \<and> propertiesUnder (OpenAPIV3Schema (CRD_Versions crd ! 0)) ''spec'' ''size''
         = Some (JSONSchemaProps ''integer'' None)
     \<and> propertiesUnder (OpenAPIV3Schema (CRD_Versions crd ! 0)) ''spec'' ''resourceRef''
         = Some (JSONSchemaProps ''object'' None)
     \<and> propertiesUnder (OpenAPIV3Schema (CRD_Versions crd ! 0)) ''spec'' ''conditions'' = None
     \<and> propertiesUnder (OpenAPIV3Schema (CRD_Versions crd ! 0)) ''status'' ''conditions''
         = Some (JSONSchemaProps ''array'' None)
     \<and> propertiesUnder (OpenAPIV3Schema (CRD_Versions crd ! 0)) ''status'' ''size'' = None
     \<and> propertiesUnder (OpenAPIV3Schema (CRD_Versions crd ! 0)) ''status'' ''compositionRef'' = None)\<close>
proof -
  let ?raw = \<open>''{"properties":{"spec":{"properties":{"size":{"type":"integer"},"compositionRef":{"type":"string"}}}}}''\<close>
  let ?d = "xrd_of (names_of ''Foo'' ''xfoos'' [] []) (Some (names_of ''FooClaim'' ''foos'' [] []))
      [version_of ''v1'' True True (Some ?raw)]"
  have i: "0 < length (Versions ?d)"
    by (simp add: xrd_of_def)
  have g: "getSpecProps example_env (Schema (Versions ?d ! 0))
      = Inr (Some [''size'' \<mapsto> JSONSchemaProps ''integer'' None,
                   ''compositionRef'' \<mapsto> JSONSchemaProps ''string'' None])"
    by (simp add: xrd_of_def version_of_def getSpecProps_def example_env_def example_Unmarshal_def
        lookup_def)
  have "\<exists>h' crd. ForCompositeResource example_env empty_heap ?d = (h', Inr crd)"
    by (simp add: run_defs)
  then obtain h1 crd1 where r1: "ForCompositeResource example_env empty_heap ?d = (h1, Inr crd1)"
    by blast
  have "\<exists>h' crd. ForCompositeResourceClaim example_env empty_heap ?d = (h', Inr crd)"
    by (simp add: run_defs)
  then obtain h2 crd2 where r2: "ForCompositeResourceClaim example_env empty_heap ?d = (h2, Inr crd2)"
    by blast
  let ?S1 = "OpenAPIV3Schema (CRD_Versions crd1 ! 0)"
  let ?S2 = "OpenAPIV3Schema (CRD_Versions crd2 ! 0)"
  let ?B = "JSONSchemaProps ''object'' (BaseProps example_env)"
  let ?p = "[''size'' \<mapsto> JSONSchemaProps ''integer'' None,
             ''compositionRef'' \<mapsto> JSONSchemaProps ''string'' None]"
  from schema_layers_in_order [OF disjI1, OF conjI, OF r1 refl i] g
  have spec1: "propertiesUnder ?S1 ''spec''
         = propertiesUnder ?B ''spec'' ++ ?p ++ entries (CompositeResourceSpecProps example_env)"
    and status1: "propertiesUnder ?S1 ''status''
         = propertiesUnder ?B ''status'' ++ entries (CompositeResourceStatusProps example_env)"
    by (auto simp: entries_def)
  from schema_layers_in_order [OF disjI2, OF conjI, OF r2 refl i] g
  have spec2: "propertiesUnder ?S2 ''spec''
         = propertiesUnder ?B ''spec'' ++ ?p ++ entries (CompositeResourceClaimSpecProps example_env)"
    and status2: "propertiesUnder ?S2 ''status''
         = propertiesUnder ?B ''status'' ++ entries (CompositeResourceStatusProps example_env)"
    by (auto simp: entries_def)
  have a1: "propertiesUnder ?S1 ''spec'' ''compositionRef'' = Some (JSONSchemaProps ''object'' None)"
    "propertiesUnder ?S1 ''spec'' ''size'' = Some (JSONSchemaProps ''integer'' None)"
    "propertiesUnder ?S1 ''spec'' ''resourceRefs'' = Some (JSONSchemaProps ''array'' None)"
    "propertiesUnder ?S1 ''spec'' ''conditions'' = None"
    by (simp_all only: spec1)
      (simp_all add: propertiesUnder_def lookup_def entries_def example_env_def map_add_def)
  have b1: "propertiesUnder ?S1 ''status'' ''conditions'' = Some (JSONSchemaProps ''array'' None)"
    "propertiesUnder ?S1 ''status'' ''size'' = None"
    "propertiesUnder ?S1 ''status'' ''compositionRef'' = None"
    by (simp_all only: status1)
      (simp_all add: propertiesUnder_def lookup_def entries_def example_env_def map_add_def)
  have a2: "propertiesUnder ?S2 ''spec'' ''compositionRef'' = Some (JSONSchemaProps ''object'' None)"
    "propertiesUnder ?S2 ''spec'' ''size'' = Some (JSONSchemaProps ''integer'' None)"
    "propertiesUnder ?S2 ''spec'' ''resourceRef'' = Some (JSONSchemaProps ''object'' None)"
    "propertiesUnder ?S2 ''spec'' ''conditions'' = None"
    by (simp_all only: spec2)
      (simp_all add: propertiesUnder_def lookup_def entries_def example_env_def map_add_def)
  have b2: "propertiesUnder ?S2 ''status'' ''conditions'' = Some (JSONSchemaProps ''array'' None)"
    "propertiesUnder ?S2 ''status'' ''size'' = None"
    "propertiesUnder ?S2 ''status'' ''compositionRef'' = None"
    by (simp_all only: status2)
      (simp_all add: propertiesUnder_def lookup_def entries_def example_env_def map_add_def)
  from r1 a1 b1 have 1: "\<exists>h' crd. ForCompositeResource example_env empty_heap ?d = (h', Inr crd)
     \<and> propertiesUnder (OpenAPIV3Schema (CRD_Versions crd ! 0)) ''spec'' ''compositionRef''
         = Some (JSONSchemaProps ''object'' None)
     \<and> propertiesUnder (OpenAPIV3Schema (CRD_Versions crd ! 0)) ''spec'' ''size''
         = Some (JSONSchemaProps ''integer'' None)
     \<and> propertiesUnder (OpenAPIV3Schema (CRD_Versions crd ! 0)) ''spec'' ''resourceRefs''
         = Some (JSONSchemaProps ''array'' None)
     \<and> propertiesUnder (OpenAPIV3Schema (CRD_Versions crd ! 0)) ''spec'' ''conditions'' = None
     \<and> propertiesUnder (OpenAPIV3Schema (CRD_Versions crd ! 0)) ''status'' ''conditions''
         = Some (JSONSchemaProps ''array'' None)
     \<and> propertiesUnder (OpenAPIV3Schema (CRD_Versions crd ! 0)) ''status'' ''size'' = None
     \<and> propertiesUnder (OpenAPIV3Schema (CRD_Versions crd ! 0)) ''status'' ''compositionRef'' = None"
    by blast
  from r2 a2 b2 have 2: "\<exists>h' crd. ForCompositeResourceClaim example_env empty_heap ?d = (h', Inr crd)
     \<and> propertiesUnder (OpenAPIV3Schema (CRD_Versions crd ! 0)) ''spec'' ''compositionRef''
         = Some (JSONSchemaProps ''object'' None)
     \<and> propertiesUnder (OpenAPIV3Schema (CRD_Versions crd ! 0)) ''spec'' ''size''
         = Some (JSONSchemaProps ''integer'' None)
     \<and> propertiesUnder (OpenAPIV3Schema (CRD_Versions crd ! 0)) ''spec'' ''resourceRef''
         = Some (JSONSchemaProps ''object'' None)
     \<and> propertiesUnder (OpenAPIV3Schema (CRD_Versions crd ! 0)) ''spec'' ''conditions'' = None
     \<and> propertiesUnder (OpenAPIV3Schema (CRD_Versions crd ! 0)) ''status'' ''conditions''
         = Some (JSONSchemaProps ''array'' None)
     \<and> propertiesUnder (OpenAPIV3Schema (CRD_Versions crd ! 0)) ''status'' ''size'' = None
     \<and> propertiesUnder (OpenAPIV3Schema (CRD_Versions crd ! 0)) ''status'' ''compositionRef'' = None"
    by blast
  from 1 2 show ?thesis by (rule conjI)
qed

subsection \<open>The elements of an appended slice\<close>

lemma store_at_outside:
  "j < i \<or> i + length xs \<le> j \<Longrightarrow> store_at a i xs j = a j"
  by (auto simp: store_at_def)

lemma map_store_at:
  "map (store_at a i xs) [i ..< i + length xs] = xs"
  by (rule nth_equalityI) (simp_all add: store_at_def)

lemma map_store_at_before:
  "k \<le> i \<Longrightarrow> map (store_at a i xs) [j ..< k] = map a [j ..< k]"
  by (simp add: store_at_def)

lemma view_append_slice:
  assumes "append_slice grow A new s xs = (A', alloc, s')"
  shows "view A' s' = view A s @ xs"
proof (cases "len s + length xs \<le> cap s")
  case True
  with assms have A': "A' = A(ptr s := store_at (A (ptr s)) (off s + len s) xs)"
    and s': "s' = s\<lparr>len := len s + length xs\<rparr>"
    by (simp_all add: append_slice_def Let_def)
  have "[off s ..< off s + (len s + length xs)]
      = [off s ..< off s + len s] @ [off s + len s ..< off s + len s + length xs]"
    using upt_add_eq_append [of "off s" "off s + len s" "length xs"] by (simp add: add.assoc)
  then show ?thesis
    by (simp add: A' s' view_def map_store_at map_store_at_before)
next
  case False
  with assms have A': "A' = A(new := store_at (A new) 0 (view A s @ xs))"
    and s': "s' = \<lparr>ptr = new, off = 0, len = len s + length xs,
          cap = max (len s + length xs) (grow (cap s) (len s + length xs))\<rparr>"
    by (simp_all add: append_slice_def Let_def)
  have "length (view A s @ xs) = len s + length xs"
    by (simp add: view_def)
  with map_store_at [of "A new" 0 "view A s @ xs"] show ?thesis
    by (simp add: A' s' view_def)
qed

lemma view_append_strings:
  assumes "append_strings E h s xs = (h1, s')"
  shows "view (strings h1) s' = view (strings h) s @ xs"
proof -
  obtain A alloc t where a: "append_slice (growslice E) (strings h) (fresh h) s xs = (A, alloc, t)"
    by (cases "append_slice (growslice E) (strings h) (fresh h) s xs")
  with assms have "strings h1 = A" "s' = t"
    by (auto simp: append_strings_def)
  with view_append_slice [OF a] show ?thesis by simp
qed

lemma append_columns_strings:
  assumes "append_columns E h s xs = (h1, s')"
  shows "strings h1 = strings h" and "maps h1 = maps h"
  using assms by (auto simp: append_columns_def split: prod.splits)

lemma versions_range_strings:
  "versions_range E pc sp h vs = (h', r) \<Longrightarrow> strings h' = strings h \<and> maps h' = maps h"
proof (induction vs arbitrary: h h' r)
  case Nil
  then show ?case by simp
next
  case (Cons v vs)
  obtain h1 cols where a: "append_columns E h (AdditionalPrinterColumns v) pc = (h1, cols)"
    by (cases "append_columns E h (AdditionalPrinterColumns v) pc")
  then have h1: "strings h1 = strings h" "maps h1 = maps h"
    by (rule append_columns_strings)+
  show ?case
  proof (cases "getSpecProps E (Schema v)")
    case (Inl err)
    with Cons.prems a h1 show ?thesis by auto
  next
    case (Inr p)
    show ?thesis
    proof (cases "assignLayers E p sp")
      case (Inl pn)
      with Cons.prems a h1 Inr show ?thesis by auto
    next
      case schema: (Inr schema)
      obtain h2 r2 where r2: "versions_range E pc sp h1 vs = (h2, r2)"
        by (cases "versions_range E pc sp h1 vs")
      then have "strings h2 = strings h1 \<and> maps h2 = maps h1"
        by (rule Cons.IH)
      moreover from Cons.prems a Inr schema r2 have "h' = h2"
        by (cases r2) simp_all
      ultimately show ?thesis using h1 by simp
    qed
  qed
qed

subsection \<open>When the loop succeeds and when it fails\<close>

lemma assignProperties_writable:
  assumes "writable (Properties schema) key"
  shows "\<exists>s'. assignProperties schema key layer = Inr s'
           \<and> (\<forall>k. writable (Properties schema) k \<longrightarrow> writable (Properties s') k)"
proof (cases "entries layer = Map.empty")
  case True
  then show ?thesis by (simp add: assignProperties_def)
next
  case False
  from assms obtain node m where "lookup (Properties schema) key = Some node" "Properties node = Some m"
    by (auto simp: writable_def split: option.splits)
  with False show ?thesis
    by (auto simp: assignProperties_def writable_def lookup_def entries_def split: option.splits)
qed

lemma assignLayers_writable:
  assumes "writable (BaseProps E) ''spec''" and "writable (BaseProps E) ''status''"
  shows "\<exists>s. assignLayers E p sp = Inr s"
proof -
  let ?b = "JSONSchemaProps ''object'' (BaseProps E)"
  from assms have b: "writable (Properties ?b) ''spec''" "writable (Properties ?b) ''status''"
    by simp_all
  from assignProperties_writable [OF b(1), of p] b(2) obtain s1 where
    1: "assignProperties ?b ''spec'' p = Inr s1" and
    w1: "writable (Properties s1) ''spec''" "writable (Properties s1) ''status''"
    using b(1) by blast
  from assignProperties_writable [OF w1(1), of sp] w1(2) obtain s2 where
    2: "assignProperties s1 ''spec'' sp = Inr s2" and
    w2: "writable (Properties s2) ''status''"
    by blast
  from assignProperties_writable [OF w2, of "CompositeResourceStatusProps E"] obtain s3 where
    "assignProperties s2 ''status'' (CompositeResourceStatusProps E) = Inr s3"
    by blast
  with 1 2 show ?thesis
    by (simp add: assignLayers_def)
qed

lemma versions_range_succeeds:
  assumes "writable (BaseProps E) ''spec''" and "writable (BaseProps E) ''status''"
  shows "\<forall>v\<in>set vs. \<not> isl (getSpecProps E (Schema v)) \<Longrightarrow>
     \<exists>h' cvs. versions_range E pc sp h vs = (h', Inr cvs)"
proof (induction vs arbitrary: h)
  case Nil
  then show ?case by simp
next
  case (Cons v vs)
  obtain h1 cols where a: "append_columns E h (AdditionalPrinterColumns v) pc = (h1, cols)"
    by (cases "append_columns E h (AdditionalPrinterColumns v) pc")
  from Cons.prems obtain p where p: "getSpecProps E (Schema v) = Inr p"
    by (cases "getSpecProps E (Schema v)") simp_all
  from assignLayers_writable [OF assms] obtain schema where s: "assignLayers E p sp = Inr schema"
    by blast
  from Cons.prems have "\<forall>v\<in>set vs. \<not> isl (getSpecProps E (Schema v))"
    by simp
  then obtain h' cvs where "versions_range E pc sp h1 vs = (h', Inr cvs)"
    using Cons.IH by blast
  with a p s show ?case by simp
qed

lemma versions_range_first_failure:
  assumes "writable (BaseProps E) ''spec''" and "writable (BaseProps E) ''status''"
    and "getSpecProps E (Schema v) = Inl e"
  shows "\<forall>u\<in>set pre. \<not> isl (getSpecProps E (Schema u)) \<Longrightarrow>
     snd (versions_range E pc sp h (pre @ v # post)) = Inl (Err (Wrap e errGetSpecProps))"
proof (induction pre arbitrary: h)
  case Nil
  obtain h1 cols where a: "append_columns E h (AdditionalPrinterColumns v) pc = (h1, cols)"
    by (cases "append_columns E h (AdditionalPrinterColumns v) pc")
  with assms(3) show ?case by simp
next
  case (Cons u pre)
  obtain h1 cols where a: "append_columns E h (AdditionalPrinterColumns u) pc = (h1, cols)"
    by (cases "append_columns E h (AdditionalPrinterColumns u) pc")
  from Cons.prems obtain p where p: "getSpecProps E (Schema u) = Inr p"
    by (cases "getSpecProps E (Schema u)") simp_all
  from assignLayers_writable [OF assms(1,2)] obtain schema where s: "assignLayers E p sp = Inr schema"
    by blast
  from Cons.prems have "\<forall>u\<in>set pre. \<not> isl (getSpecProps E (Schema u))"
    by simp
  then have "snd (versions_range E pc sp h1 (pre @ v # post)) = Inl (Err (Wrap e errGetSpecProps))"
    by (rule Cons.IH)
  then obtain h2 where "versions_range E pc sp h1 (pre @ v # post) = (h2, Inl (Err (Wrap e errGetSpecProps)))"
    by (cases "versions_range E pc sp h1 (pre @ v # post)") simp
  with a p s show ?case by simp
qed

lemma example_env_writable:
  "writable (BaseProps example_env) ''spec''" "writable (BaseProps example_env) ''status''"
  by (simp_all add: writable_def lookup_def example_env_def)

subsection \<open>A schema that does not decode\<close>

text \<open>
  C6, as stated, fails for \<open>ForCompositeResourceClaim\<close>: the claim names are validated
  before any schema is parsed. For a definition without claim names whose only version
  has a schema that does not decode, the error returned is
  \<open>invalid resource claim names: missing names\<close>, not the decode failure.
\<close>

theorem decode_failure_hidden_by_names:
  "isl (getSpecProps example_env (Schema (version_of ''v1'' True True (Some ''{''))))
   \<and> snd (ForCompositeResourceClaim example_env empty_heap
         (xrd_of (names_of ''Foo'' ''xfoos'' [] []) None [version_of ''v1'' True True (Some ''{'')]))
     = Inl (Err (Wrap (New ''missing names'') ''invalid resource claim names''))"
  by (simp add: run_defs errMissingClaimNames_def errInvalidClaimNames_def)

text \<open>Among versions of which one does not decode there is a first that does not.\<close>

lemma first_failing_version:
  assumes "\<exists>v\<in>set vs. isl (getSpecProps E (Schema v))"
  shows "\<exists>pre v post. vs = pre @ v # post \<and> (\<forall>u\<in>set pre. \<not> isl (getSpecProps E (Schema u)))
           \<and> isl (getSpecProps E (Schema v))"
  using split_list_first_prop [of vs "\<lambda>v. isl (getSpecProps E (Schema v))"] assms by blast

text \<open>
  C6, amended. Let the base properties have allocated property maps under \<open>spec\<close> and
  \<open>status\<close>, so that no assignment panics, and let \<open>v\<close> be the first version whose schema
  does not decode: the versions are \<open>pre\<close>, then \<open>v\<close>, then \<open>post\<close>, and every schema in
  \<open>pre\<close> decodes. Then \<open>ForCompositeResource\<close> returns no definition but the decoder's
  error for \<open>v\<close>, wrapped as \<open>cannot parse validation schema\<close> and then as
  \<open>cannot get spec properties from validation schema\<close>, whatever the versions in \<open>post\<close>
  are; so does \<open>ForCompositeResourceClaim\<close> when the claim names are valid, and when they
  are not it returns no definition but the validation's error wrapped as
  \<open>invalid resource claim names\<close>.
\<close>

theorem decode_failure_aborts:
  assumes "writable (BaseProps E) ''spec''" and "writable (BaseProps E) ''status''"
    and vs: "Versions d = pre @ v # post"
    and pre: "\<forall>u\<in>set pre. \<not> isl (getSpecProps E (Schema u))"
    and v: "isl (getSpecProps E (Schema v))"
  shows "\<exists>raw err. Schema v = Some raw \<and> Unmarshal E raw = Inl err
     \<and> snd (ForCompositeResource E h d)
         = Inl (Err (Wrap (Wrap err errParseValidation) errGetSpecProps))
     \<and> (validateClaimNames E d = None
          \<longrightarrow> snd (ForCompositeResourceClaim E h d)
                = Inl (Err (Wrap (Wrap err errParseValidation) errGetSpecProps)))
     \<and> (\<forall>e. validateClaimNames E d = Some e
          \<longrightarrow> snd (ForCompositeResourceClaim E h d) = Inl (Err (Wrap e errInvalidClaimNames)))"
proof -
  from v obtain e where e: "getSpecProps E (Schema v) = Inl e"
    by (cases "getSpecProps E (Schema v)") simp_all
  then obtain raw err where raw: "Schema v = Some raw" "Unmarshal E raw = Inl err"
    and e': "e = Wrap err errParseValidation"
    by (auto simp: getSpecProps_def split: option.splits sum.splits)
  note fail = versions_range_first_failure [OF assms(1,2) e pre, of _ _ _ post, folded vs]
  have 1: "snd (ForCompositeResource E h d)
      = Inl (Err (Wrap (Wrap err errParseValidation) errGetSpecProps))"
  proof -
    obtain h1 cats where
      a: "append_strings E h (Categories (XRD_Names d)) [CategoryComposite] = (h1, cats)"
      by (cases "append_strings E h (Categories (XRD_Names d)) [CategoryComposite]")
    obtain h2 r where r: "versions_range E (CompositeResourcePrinterColumns E)
        (CompositeResourceSpecProps E) h1 (Versions d) = (h2, r)"
      by (cases "versions_range E (CompositeResourcePrinterColumns E)
        (CompositeResourceSpecProps E) h1 (Versions d)")
    with fail [of "CompositeResourcePrinterColumns E" "CompositeResourceSpecProps E" h1]
    have "r = Inl (Err (Wrap e errGetSpecProps))" by simp
    with a r e' show ?thesis by (simp add: ForCompositeResource_def)
  qed
  have 2: "validateClaimNames E d = None
      \<longrightarrow> snd (ForCompositeResourceClaim E h d)
            = Inl (Err (Wrap (Wrap err errParseValidation) errGetSpecProps))"
  proof
    assume n: "validateClaimNames E d = None"
    then obtain c where c: "ClaimNames d = Some c"
      by (rule validateClaimNames_None)
    obtain h1 cats where a: "append_strings E h (Categories c) [CategoryClaim] = (h1, cats)"
      by (cases "append_strings E h (Categories c) [CategoryClaim]")
    obtain h2 r where r: "versions_range E (CompositeResourceClaimPrinterColumns E)
        (CompositeResourceClaimSpecProps E) h1 (Versions d) = (h2, r)"
      by (cases "versions_range E (CompositeResourceClaimPrinterColumns E)
        (CompositeResourceClaimSpecProps E) h1 (Versions d)")
    with fail [of "CompositeResourceClaimPrinterColumns E" "CompositeResourceClaimSpecProps E" h1]
    have "r = Inl (Err (Wrap e errGetSpecProps))" by simp
    with n c a r e' show "snd (ForCompositeResourceClaim E h d)
        = Inl (Err (Wrap (Wrap err errParseValidation) errGetSpecProps))"
      by (simp add: ForCompositeResourceClaim_def)
  qed
  have 3: "\<forall>e. validateClaimNames E d = Some e
      \<longrightarrow> snd (ForCompositeResourceClaim E h d) = Inl (Err (Wrap e errInvalidClaimNames))"
    by (simp add: ForCompositeResourceClaim_def)
  from raw 1 2 3 show ?thesis
    by (intro exI [of _ raw] exI [of _ err] conjI)
qed

text \<open>
  Three versions: the first has no schema, the second a schema that ends after its first
  brace, the third a lone closing brace. Both functions return the error of the second,
  which is not the error of the third.
\<close>

theorem decode_failure_aborts_witness:
  "snd (ForCompositeResource example_env empty_heap
         (xrd_of (names_of ''Foo'' ''xfoos'' [] []) (Some (names_of ''FooClaim'' ''foos'' [] []))
            [version_of ''v1'' True True None, version_of ''v2'' False True (Some ''{''),
             version_of ''v3'' False True (Some ''}'')]))
     = Inl (Err (Wrap (Wrap (JSONError ''unexpected end of JSON input'') errParseValidation)
                   errGetSpecProps))
   \<and> snd (ForCompositeResourceClaim example_env empty_heap
         (xrd_of (names_of ''Foo'' ''xfoos'' [] []) (Some (names_of ''FooClaim'' ''foos'' [] []))
            [version_of ''v1'' True True None, version_of ''v2'' False True (Some ''{''),
             version_of ''v3'' False True (Some ''}'')]))
     = Inl (Err (Wrap (Wrap (JSONError ''unexpected end of JSON input'') errParseValidation)
                   errGetSpecProps))
   \<and> getSpecProps example_env (Schema (version_of ''v3'' False True (Some ''}'')))
     = Inl (Wrap (JSONError ''invalid character '}' looking for beginning of value'')
              errParseValidation)"
proof -
  let ?v1 = "version_of ''v1'' True True None"
  let ?v2 = "version_of ''v2'' False True (Some ''{'')"
  let ?v3 = "version_of ''v3'' False True (Some ''}'')"
  let ?d = "xrd_of (names_of ''Foo'' ''xfoos'' [] []) (Some (names_of ''FooClaim'' ''foos'' [] []))
            [?v1, ?v2, ?v3]"
  have vs: "Versions ?d = [?v1] @ ?v2 # [?v3]"
    by (simp add: xrd_of_def)
  have pre: "\<forall>u\<in>set [?v1]. \<not> isl (getSpecProps example_env (Schema u))"
    by (simp add: version_of_def getSpecProps_def)
  have v: "isl (getSpecProps example_env (Schema ?v2))"
    by (simp add: version_of_def getSpecProps_def example_env_def example_Unmarshal_def)
  have n: "validateClaimNames example_env ?d = None"
    by (simp add: validateClaimNames_def xrd_of_def names_of_def)
  have u: "\<And>raw err. Schema ?v2 = Some raw \<Longrightarrow> Unmarshal example_env raw = Inl err
      \<Longrightarrow> err = JSONError ''unexpected end of JSON input''"
    by (auto simp: version_of_def example_env_def example_Unmarshal_def)
  have 3: "getSpecProps example_env (Schema ?v3)
     = Inl (Wrap (JSONError ''invalid character '}' looking for beginning of value'')
              errParseValidation)"
    by (simp add: version_of_def getSpecProps_def example_env_def example_Unmarshal_def)
  from decode_failure_aborts [OF example_env_writable vs pre v, of empty_heap] n u 3
  show ?thesis by blast
qed

subsection \<open>What the calls leave of the input\<close>

text \<open>
  The only writes of the two functions to memory that exists before the call are those
  of \<open>append\<close>, into the cells behind the last element of the slice appended to. They
  leave the elements of a slice \<open>t\<close> alone when \<open>t\<close> is the slice appended to or is apart
  from it.
\<close>

lemma view_cong:
  "(\<And>j. off t \<le> j \<Longrightarrow> j < off t + len t \<Longrightarrow> A' (ptr t) j = A (ptr t) j) \<Longrightarrow> view A' t = view A t"
  by (simp add: view_def)

lemma append_slice_frame:
  assumes a: "append_slice grow A new s xs = (A', alloc, s')"
    and t: "len t \<le> cap t" "cap t = 0 \<or> ptr t < new"
    and st: "s = t \<or> apart s t"
  shows "view A' t = view A t"
proof (rule view_cong)
  fix j
  assume j: "off t \<le> j" "j < off t + len t"
  with t have ct: "cap t \<noteq> 0" "ptr t < new" "j < off t + cap t"
    by auto
  show "A' (ptr t) j = A (ptr t) j"
  proof (cases "len s + length xs \<le> cap s")
    case True
    with a have A': "A' = A(ptr s := store_at (A (ptr s)) (off s + len s) xs)"
      by (simp add: append_slice_def Let_def)
    show ?thesis
    proof (cases "ptr t = ptr s")
      case False
      then show ?thesis by (simp add: A')
    next
      case same: True
      have "j < off s + len s \<or> off s + len s + length xs \<le> j"
      proof (cases "s = t")
        case True
        with j show ?thesis by simp
      next
        case False
        with st have "apart s t" by simp
        with ct same True j show ?thesis
          by (cases "xs = []") (auto simp: apart_def)
      qed
      then show ?thesis
        by (auto simp: A' same store_at_def)
    qed
  next
    case False
    with a have "A' = A(new := store_at (A new) 0 (view A s @ xs))"
      by (simp add: append_slice_def Let_def)
    with ct show ?thesis by simp
  qed
qed

lemma wf_slice_mono:
  "wf_slice h t \<Longrightarrow> fresh h \<le> fresh h' \<Longrightarrow> wf_slice h' t"
  by (auto simp: wf_slice_def)

lemma append_strings_frame:
  assumes "append_strings E h s xs = (h1, s')"
  shows "columns h1 = columns h" and "maps h1 = maps h" and "fresh h \<le> fresh h1"
    and "\<And>t. wf_slice h t \<Longrightarrow> s = t \<or> apart s t \<Longrightarrow> view (strings h1) t = view (strings h) t"
proof -
  obtain A alloc u where a: "append_slice (growslice E) (strings h) (fresh h) s xs = (A, alloc, u)"
    by (cases "append_slice (growslice E) (strings h) (fresh h) s xs")
  with assms have h1: "h1 = h\<lparr>strings := A, fresh := (if alloc then Suc (fresh h) else fresh h)\<rparr>"
    by (simp add: append_strings_def)
  show "columns h1 = columns h" "maps h1 = maps h" "fresh h \<le> fresh h1"
    by (simp_all add: h1)
  fix t
  assume "wf_slice h t" and "s = t \<or> apart s t"
  then have "view A t = view (strings h) t"
    using append_slice_frame [OF a] by (simp add: wf_slice_def)
  then show "view (strings h1) t = view (strings h) t"
    by (simp add: h1)
qed

lemma append_columns_frame:
  assumes "append_columns E h s xs = (h1, s')"
  shows "fresh h \<le> fresh h1"
    and "\<And>t. wf_slice h t \<Longrightarrow> s = t \<or> apart s t \<Longrightarrow> view (columns h1) t = view (columns h) t"
proof -
  obtain A alloc u where a: "append_slice (growslice E) (columns h) (fresh h) s xs = (A, alloc, u)"
    by (cases "append_slice (growslice E) (columns h) (fresh h) s xs")
  with assms have h1: "h1 = h\<lparr>columns := A, fresh := (if alloc then Suc (fresh h) else fresh h)\<rparr>"
    by (simp add: append_columns_def)
  show "fresh h \<le> fresh h1"
    by (simp add: h1)
  fix t
  assume "wf_slice h t" and "s = t \<or> apart s t"
  then have "view A t = view (columns h) t"
    using append_slice_frame [OF a] by (simp add: wf_slice_def)
  then show "view (columns h1) t = view (columns h) t"
    by (simp add: h1)
qed

lemma versions_range_step:
  assumes "versions_range E pc sp h (v # vs) = (h', r)"
  obtains h1 cols where "append_columns E h (AdditionalPrinterColumns v) pc = (h1, cols)"
    and "h' = h1 \<or> (\<exists>r'. versions_range E pc sp h1 vs = (h', r'))"
proof -
  obtain h1 cols where a: "append_columns E h (AdditionalPrinterColumns v) pc = (h1, cols)"
    by (cases "append_columns E h (AdditionalPrinterColumns v) pc")
  have "h' = h1 \<or> (\<exists>r'. versions_range E pc sp h1 vs = (h', r'))"
  proof (cases "getSpecProps E (Schema v)")
    case (Inl err)
    with assms a show ?thesis by simp
  next
    case (Inr p)
    show ?thesis
    proof (cases "assignLayers E p sp")
      case (Inl pn)
      with assms a Inr show ?thesis by simp
    next
      case schema: (Inr schema)
      obtain h2 r2 where r2: "versions_range E pc sp h1 vs = (h2, r2)"
        by (cases "versions_range E pc sp h1 vs")
      with assms a Inr schema have "h' = h2"
        by (cases r2) simp_all
      with r2 show ?thesis by blast
    qed
  qed
  with a that show thesis by blast
qed

lemma versions_range_frame:
  "versions_range E pc sp h vs = (h', r) \<Longrightarrow>
     fresh h \<le> fresh h'
     \<and> (\<forall>t. wf_slice h t \<and> (\<forall>v\<in>set vs. AdditionalPrinterColumns v = t \<or> apart (AdditionalPrinterColumns v) t)
            \<longrightarrow> view (columns h') t = view (columns h) t)"
proof (induction vs arbitrary: h h' r)
  case Nil
  then show ?case by simp
next
  case (Cons v vs)
  from Cons.prems show ?case
  proof (rule versions_range_step)
    fix h1 cols
    assume a: "append_columns E h (AdditionalPrinterColumns v) pc = (h1, cols)"
      and rest: "h' = h1 \<or> (\<exists>r'. versions_range E pc sp h1 vs = (h', r'))"
    note f1 = append_columns_frame [OF a]
    from rest have f2: "fresh h1 \<le> fresh h'
       \<and> (\<forall>t. wf_slice h1 t \<and> (\<forall>v\<in>set vs. AdditionalPrinterColumns v = t \<or> apart (AdditionalPrinterColumns v) t)
            \<longrightarrow> view (columns h') t = view (columns h1) t)"
    proof
      assume "h' = h1"
      then show ?thesis by simp
    next
      assume "\<exists>r'. versions_range E pc sp h1 vs = (h', r')"
      then obtain r' where "versions_range E pc sp h1 vs = (h', r')" ..
      then show ?thesis by (rule Cons.IH)
    qed
    show ?thesis
    proof (intro conjI allI impI)
      from f1(1) f2 show "fresh h \<le> fresh h'" by simp
    next
      fix t
      assume t: "wf_slice h t \<and> (\<forall>v\<in>set (v # vs). AdditionalPrinterColumns v = t \<or> apart (AdditionalPrinterColumns v) t)"
      then have "wf_slice h1 t"
        using f1(1) wf_slice_mono by blast
      with t f2 have "view (columns h') t = view (columns h1) t"
        by simp
      also from t have "view (columns h1) t = view (columns h) t"
        by (intro f1(2)) simp_all
      finally show "view (columns h') t = view (columns h) t" .
    qed
  qed
qed

lemma XRD_value_eq:
  assumes "maps h' = maps h"
    and "\<forall>t\<in>set (string_slices d). view (strings h') t = view (strings h) t"
    and "\<forall>t\<in>set (column_slices d). view (columns h') t = view (columns h) t"
  shows "XRD_value h' d = XRD_value h d"
proof -
  from assms(2) have "Names_value h' (XRD_Names d) = Names_value h (XRD_Names d)"
    by (simp add: Names_value_def string_slices_def)
  moreover from assms(2) have "map_option (Names_value h') (ClaimNames d) = map_option (Names_value h) (ClaimNames d)"
    by (cases "ClaimNames d") (simp_all add: Names_value_def string_slices_def)
  moreover from assms(3) have "map (Version_value h') (Versions d) = map (Version_value h) (Versions d)"
    by (simp add: Version_value_def column_slices_def)
  ultimately show ?thesis
    using assms(1) by (simp add: XRD_value_def)
qed

lemma owns_strings:
  assumes "owns h d" and "s \<in> set (string_slices d)" and "t \<in> set (string_slices d)"
  shows "wf_slice h t" and "s = t \<or> apart s t"
  using assms by (auto simp: owns_def list_all_iff)

lemma owns_columns:
  assumes "owns h d" and "s \<in> set (column_slices d)" and "t \<in> set (column_slices d)"
  shows "wf_slice h t" and "s = t \<or> apart s t"
  using assms by (auto simp: owns_def list_all_iff)

lemma append_then_range_frame:
  assumes o: "owns h d" and s: "s \<in> set (string_slices d)"
    and a: "append_strings E h s xs = (h1, cats)"
    and r: "versions_range E pc sp h1 (Versions d) = (h', r)"
  shows "XRD_value h' d = XRD_value h d"
proof (rule XRD_value_eq)
  note f = append_strings_frame [OF a]
  from r have sm: "strings h' = strings h1" "maps h' = maps h1"
    using versions_range_strings by blast+
  from sm(2) f(2) show "maps h' = maps h" by simp
  show "\<forall>t\<in>set (string_slices d). view (strings h') t = view (strings h) t"
  proof
    fix t
    assume "t \<in> set (string_slices d)"
    with o s have "wf_slice h t" "s = t \<or> apart s t"
      by (rule owns_strings)+
    then have "view (strings h1) t = view (strings h) t"
      by (rule f(4))
    with sm(1) show "view (strings h') t = view (strings h) t" by simp
  qed
  show "\<forall>t\<in>set (column_slices d). view (columns h') t = view (columns h) t"
  proof
    fix t
    assume t: "t \<in> set (column_slices d)"
    with o have "wf_slice h t"
      by (auto simp: owns_def list_all_iff)
    with f(3) have w: "wf_slice h1 t"
      using wf_slice_mono by blast
    have "\<forall>v\<in>set (Versions d). AdditionalPrinterColumns v = t \<or> apart (AdditionalPrinterColumns v) t"
    proof
      fix v
      assume "v \<in> set (Versions d)"
      then have "AdditionalPrinterColumns v \<in> set (column_slices d)"
        by (simp add: column_slices_def)
      with o show "AdditionalPrinterColumns v = t \<or> apart (AdditionalPrinterColumns v) t"
        using t by (rule owns_columns)
    qed
    with versions_range_frame [OF r] w have "view (columns h') t = view (columns h1) t"
      by blast
    with f(1) show "view (columns h') t = view (columns h) t" by simp
  qed
qed

lemma ForCompositeResource_heap:
  obtains h1 cats r where
    "append_strings E h (Categories (XRD_Names d)) [CategoryComposite] = (h1, cats)"
    "versions_range E (CompositeResourcePrinterColumns E) (CompositeResourceSpecProps E)
       h1 (Versions d) = (fst (ForCompositeResource E h d), r)"
proof -
  obtain h1 cats where
    a: "append_strings E h (Categories (XRD_Names d)) [CategoryComposite] = (h1, cats)"
    by (cases "append_strings E h (Categories (XRD_Names d)) [CategoryComposite]")
  obtain h2 r where r: "versions_range E (CompositeResourcePrinterColumns E)
      (CompositeResourceSpecProps E) h1 (Versions d) = (h2, r)"
    by (cases "versions_range E (CompositeResourcePrinterColumns E)
      (CompositeResourceSpecProps E) h1 (Versions d)")
  with a have "fst (ForCompositeResource E h d) = h2"
    by (cases r) (simp_all add: ForCompositeResource_def)
  with a r that show thesis by simp
qed

lemma ForCompositeResourceClaim_heap:
  assumes "fst (ForCompositeResourceClaim E h d) \<noteq> h"
  obtains c h1 cats r where
    "ClaimNames d = Some c"
    "append_strings E h (Categories c) [CategoryClaim] = (h1, cats)"
    "versions_range E (CompositeResourceClaimPrinterColumns E) (CompositeResourceClaimSpecProps E)
       h1 (Versions d) = (fst (ForCompositeResourceClaim E h d), r)"
proof (cases "validateClaimNames E d")
  case (Some err)
  with assms show thesis by (simp add: ForCompositeResourceClaim_def)
next
  case None
  then obtain c where c: "ClaimNames d = Some c"
    by (rule validateClaimNames_None)
  obtain h1 cats where a: "append_strings E h (Categories c) [CategoryClaim] = (h1, cats)"
    by (cases "append_strings E h (Categories c) [CategoryClaim]")
  obtain h2 r where r: "versions_range E (CompositeResourceClaimPrinterColumns E)
      (CompositeResourceClaimSpecProps E) h1 (Versions d) = (h2, r)"
    by (cases "versions_range E (CompositeResourceClaimPrinterColumns E)
      (CompositeResourceClaimSpecProps E) h1 (Versions d)")
  with None c a have "fst (ForCompositeResourceClaim E h d) = h2"
    by (cases r) (simp_all add: ForCompositeResourceClaim_def)
  with c a r that show thesis by simp
qed

text \<open>
  C2, as stated, fails. \<open>crd.Spec.Names\<close> is a copy of the input's name set whose
  \<open>Categories\<close> still is the input's slice, and \<open>append\<close> stores \<open>composite\<close> behind its last
  element when the capacity allows. Where another slice of the input reaches that
  cell, the input changes: here the claim categories \<open>a, b\<close> become \<open>a, composite\<close>.
\<close>

theorem input_value_changed_through_shared_array:
  "view (strings shared_heap) (Categories (the (ClaimNames shared_xrd))) = [''a'', ''b'']
   \<and> view (strings (fst (ForCompositeResource example_env shared_heap shared_xrd)))
        (Categories (the (ClaimNames shared_xrd))) = [''a'', ''composite'']
   \<and> XRD_value (fst (ForCompositeResource example_env shared_heap shared_xrd)) shared_xrd
       \<noteq> XRD_value shared_heap shared_xrd"
proof -
  have c: "Categories (the (ClaimNames shared_xrd)) = \<lparr>ptr = 1, off = 0, len = 2, cap = 2\<rparr>"
    by (simp add: shared_xrd_def xrd_of_def names_of_def)
  have u: "[0..<2] = [0, Suc 0]"
    by (simp add: upt_rec)
  have 1: "view (strings shared_heap) (Categories (the (ClaimNames shared_xrd))) = [''a'', ''b'']"
    by (simp add: c view_def shared_heap_def empty_heap_def u)
  have 2: "view (strings (fst (ForCompositeResource example_env shared_heap shared_xrd)))
        (Categories (the (ClaimNames shared_xrd))) = [''a'', ''composite'']"
    by (simp add: ForCompositeResource_def append_strings_def append_slice_def shared_heap_def
        shared_xrd_def xrd_of_def names_of_def empty_heap_def view_def store_at_def u
        CategoryComposite_def)
  have "map_option (Names_value (fst (ForCompositeResource example_env shared_heap shared_xrd)))
          (ClaimNames shared_xrd)
      \<noteq> map_option (Names_value shared_heap) (ClaimNames shared_xrd)"
    using 1 2 by (simp add: Names_value_def shared_xrd_def xrd_of_def)
  then have "XRD_value (fst (ForCompositeResource example_env shared_heap shared_xrd)) shared_xrd
       \<noteq> XRD_value shared_heap shared_xrd"
    by (simp add: XRD_value_def)
  with 1 2 show ?thesis by blast
qed

text \<open>
  C2, amended. For a definition that owns its slices, the value of the definition is the
  same after a call of either function as before, whether the call succeeds, fails or
  panics. The definition returned is a new one, but not a copy in depth: its labels and
  annotations are the input's own maps.
\<close>

theorem input_value_preserved:
  assumes "owns h d"
  shows "XRD_value (fst (ForCompositeResource E h d)) d = XRD_value h d
     \<and> XRD_value (fst (ForCompositeResourceClaim E h d)) d = XRD_value h d
     \<and> (\<forall>h' crd. ForCompositeResource E h d = (h', Inr crd) \<or> ForCompositeResourceClaim E h d = (h', Inr crd)
          \<longrightarrow> CRD_Labels crd = XRD_Labels d \<and> CRD_Annotations crd = XRD_Annotations d)"
proof (intro conjI)
  show "XRD_value (fst (ForCompositeResource E h d)) d = XRD_value h d"
  proof -
    obtain h1 cats r where
      "append_strings E h (Categories (XRD_Names d)) [CategoryComposite] = (h1, cats)"
      and "versions_range E (CompositeResourcePrinterColumns E) (CompositeResourceSpecProps E)
         h1 (Versions d) = (fst (ForCompositeResource E h d), r)"
      by (rule ForCompositeResource_heap)
    moreover have "Categories (XRD_Names d) \<in> set (string_slices d)"
      by (simp add: string_slices_def)
    ultimately show ?thesis
      using assms append_then_range_frame by blast
  qed
next
  show "XRD_value (fst (ForCompositeResourceClaim E h d)) d = XRD_value h d"
  proof (cases "fst (ForCompositeResourceClaim E h d) = h")
    case True
    then show ?thesis by simp
  next
    case False
    then obtain c h1 cats r where c: "ClaimNames d = Some c"
      and "append_strings E h (Categories c) [CategoryClaim] = (h1, cats)"
      and "versions_range E (CompositeResourceClaimPrinterColumns E)
         (CompositeResourceClaimSpecProps E) h1 (Versions d)
         = (fst (ForCompositeResourceClaim E h d), r)"
      by (rule ForCompositeResourceClaim_heap)
    moreover from c have "Categories c \<in> set (string_slices d)"
      by (simp add: string_slices_def)
    ultimately show ?thesis
      using assms append_then_range_frame by blast
  qed
next
  show "\<forall>h' crd. ForCompositeResource E h d = (h', Inr crd) \<or> ForCompositeResourceClaim E h d = (h', Inr crd)
          \<longrightarrow> CRD_Labels crd = XRD_Labels d \<and> CRD_Annotations crd = XRD_Annotations d"
  proof (intro allI impI)
    fix h' crd
    assume "ForCompositeResource E h d = (h', Inr crd) \<or> ForCompositeResourceClaim E h d = (h', Inr crd)"
    then show "CRD_Labels crd = XRD_Labels d \<and> CRD_Annotations crd = XRD_Annotations d"
    proof
      assume "ForCompositeResource E h d = (h', Inr crd)"
      then show ?thesis
        by (rule ForCompositeResource_Inr) simp
    next
      assume "ForCompositeResourceClaim E h d = (h', Inr crd)"
      then show ?thesis
        by (rule ForCompositeResourceClaim_Inr) simp
    qed
  qed
qed

text \<open>
  A definition whose categories and printer columns have spare capacity: both calls
  leave its value as it was, although \<open>composite\<close> has been stored in the spare cell of
  the categories' array.
\<close>

theorem input_value_preserved_witness:
  "owns shared_heap owned_xrd
   \<and> XRD_value (fst (ForCompositeResource example_env shared_heap owned_xrd)) owned_xrd
       = XRD_value shared_heap owned_xrd
   \<and> XRD_value (fst (ForCompositeResourceClaim example_env shared_heap owned_xrd)) owned_xrd
       = XRD_value shared_heap owned_xrd
   \<and> strings (fst (ForCompositeResource example_env shared_heap owned_xrd)) 1 1 = ''composite''"
proof -
  have o: "owns shared_heap owned_xrd"
    by (simp add: owns_def string_slices_def column_slices_def owned_xrd_def xrd_of_def
        names_of_def version_of_def nil_slice_def wf_slice_def apart_def shared_heap_def)
  have "strings (fst (ForCompositeResource example_env shared_heap owned_xrd)) 1 1 = ''composite''"
    by (simp add: run_defs owned_xrd_def shared_heap_def store_at_def CategoryComposite_def)
  with o input_value_preserved [OF o, of example_env] show ?thesis
    by blast
qed

subsection \<open>The claim's definition\<close>

text \<open>
  C8, as stated, fails. Claim names that differ from the composite's do not make
  \<open>ForCompositeResourceClaim\<close> succeed when a version's schema does not decode. When it
  succeeds, the names of the result are the claim names with one more category,
  \<open>claim\<close>; and where the claim's short names lie in the cell behind its categories,
  \<open>append\<close> stores \<open>claim\<close> there and the short names of the result read \<open>claim\<close>, not \<open>b\<close>.
\<close>

theorem distinct_names_need_not_succeed:
  "validateClaimNames example_env
       (xrd_of (names_of ''Foo'' ''xfoos'' [] []) (Some (names_of ''FooClaim'' ''foos'' [] []))
          [version_of ''v1'' True True (Some ''{'')]) = None
   \<and> snd (ForCompositeResourceClaim example_env empty_heap
         (xrd_of (names_of ''Foo'' ''xfoos'' [] []) (Some (names_of ''FooClaim'' ''foos'' [] []))
            [version_of ''v1'' True True (Some ''{'')]))
     = Inl (Err (Wrap (Wrap (JSONError ''unexpected end of JSON input'')
                         ''cannot parse validation schema'')
                   ''cannot get spec properties from validation schema''))
   \<and> (case ForCompositeResourceClaim example_env empty_heap
         (xrd_of (names_of ''Foo'' ''xfoos'' [] []) (Some (names_of ''FooClaim'' ''foos'' [] []))
            [version_of ''v1'' True True None]) of
        (h', Inr crd) \<Rightarrow>
           view (strings empty_heap) (Categories (names_of ''FooClaim'' ''foos'' [] [])) = []
           \<and> view (strings h') (Categories (CRD_Names crd)) = [''claim'']
      | (h', Inl f) \<Rightarrow> False)
   \<and> (case ForCompositeResourceClaim example_env shared_heap aliased_claim_xrd of
        (h', Inr crd) \<Rightarrow>
           view (strings shared_heap) (ShortNames (the (ClaimNames aliased_claim_xrd))) = [''b'']
           \<and> view (strings h') (ShortNames (CRD_Names crd)) = [''claim'']
      | (h', Inl f) \<Rightarrow> False)"
proof -
  have u: "[Suc 0..<2] = [Suc 0]"
    by (simp add: upt_rec)
  show ?thesis
    by (simp add: run_defs errParseValidation_def errGetSpecProps_def CategoryClaim_def view_def
      store_at_def aliased_claim_xrd_def shared_heap_def u)
qed

text \<open>
  C8, amended. Let the base properties have allocated property maps under \<open>spec\<close> and
  \<open>status\<close>. Take a definition with a claim name set whose kind and plural differ from
  the composite's, and whose singular and listKind differ from the composite's unless
  empty; with versions whose schemas all decode; and whose claim short names are a well
  formed slice that is the categories' slice or apart from it. Then
  \<open>ForCompositeResourceClaim\<close> succeeds. The result is named by the claim plural, a dot
  and the group, is namespace-scoped, and has the kind, plural, singular, listKind and
  the short names of the claim name set, element by element as the store held them
  before the call, and its categories followed by \<open>claim\<close>.
\<close>

theorem claim_definition_for_valid_names:
  assumes "writable (BaseProps E) ''spec''" and "writable (BaseProps E) ''status''"
    and "ClaimNames d = Some c"
    and "Kind c \<noteq> Kind (XRD_Names d)" and "Plural c \<noteq> Plural (XRD_Names d)"
    and "Singular c \<noteq> [] \<longrightarrow> Singular c \<noteq> Singular (XRD_Names d)"
    and "ListKind c \<noteq> [] \<longrightarrow> ListKind c \<noteq> ListKind (XRD_Names d)"
    and "\<forall>v\<in>set (Versions d). \<not> isl (getSpecProps E (Schema v))"
    and "wf_slice h (ShortNames c)"
    and "Categories c = ShortNames c \<or> apart (Categories c) (ShortNames c)"
  shows "\<exists>h' crd. ForCompositeResourceClaim E h d = (h', Inr crd)
     \<and> CRD_Name crd = Plural c @ ''.'' @ Group d
     \<and> Scope crd = NamespaceScoped
     \<and> CRD_Group crd = Group d
     \<and> Kind (CRD_Names crd) = Kind c \<and> Plural (CRD_Names crd) = Plural c
     \<and> Singular (CRD_Names crd) = Singular c \<and> ListKind (CRD_Names crd) = ListKind c
     \<and> view (strings h') (ShortNames (CRD_Names crd)) = view (strings h) (ShortNames c)
     \<and> view (strings h') (Categories (CRD_Names crd)) = view (strings h) (Categories c) @ [CategoryClaim]"
proof -
  from assms(3-7) have n: "validateClaimNames E d = None"
    by (auto simp: validateClaimNames_def)
  obtain h1 cats where a: "append_strings E h (Categories c) [CategoryClaim] = (h1, cats)"
    by (cases "append_strings E h (Categories c) [CategoryClaim]")
  from versions_range_succeeds [OF assms(1,2,8)] obtain h' cvs where
    r: "versions_range E (CompositeResourceClaimPrinterColumns E)
        (CompositeResourceClaimSpecProps E) h1 (Versions d) = (h', Inr cvs)"
    by blast
  let ?crd = "\<lparr>CRD_Name = Plural c @ ''.'' @ Group d, CRD_Labels = XRD_Labels d,
            CRD_Annotations = XRD_Annotations d,
            CRD_OwnerReferences = [AsController_TypedReferenceTo E d],
            Scope = NamespaceScoped, CRD_Group = Group d,
            CRD_Names = c\<lparr>Categories := cats\<rparr>, CRD_Versions = cvs\<rparr>"
  from n assms(3) a r have res: "ForCompositeResourceClaim E h d = (h', Inr ?crd)"
    by (simp add: ForCompositeResourceClaim_def)
  from r have s: "strings h' = strings h1"
    using versions_range_strings by blast
  with view_append_strings [OF a]
  have cats: "view (strings h') cats = view (strings h) (Categories c) @ [CategoryClaim]"
    by simp
  from assms(9,10) have "view (strings h1) (ShortNames c) = view (strings h) (ShortNames c)"
    by (rule append_strings_frame(4) [OF a])
  with s have "view (strings h') (ShortNames c) = view (strings h) (ShortNames c)"
    by simp
  with res cats show ?thesis by simp
qed

text \<open>
  The definition of \<open>FooClaim\<close> in group \<open>example.org\<close>, with the short name \<open>b\<close> and the
  category \<open>a\<close> in one array, is named \<open>foos.example.org\<close> and has the short name \<open>b\<close> and
  the categories \<open>a\<close> and \<open>claim\<close>.
\<close>

theorem claim_definition_for_valid_names_witness:
  "\<exists>h' crd. ForCompositeResourceClaim example_env shared_heap apart_claim_xrd = (h', Inr crd)
     \<and> CRD_Name crd = ''foos.example.org''
     \<and> Scope crd = NamespaceScoped
     \<and> Kind (CRD_Names crd) = ''FooClaim''
     \<and> view (strings h') (ShortNames (CRD_Names crd)) = [''b'']
     \<and> view (strings h') (Categories (CRD_Names crd)) = [''a'', ''claim'']"
proof -
  let ?c = "(names_of ''FooClaim'' ''foos'' [] [])
                     \<lparr>ShortNames := \<lparr>ptr = 1, off = 1, len = 1, cap = 1\<rparr>,
                      Categories := \<lparr>ptr = 1, off = 0, len = 1, cap = 1\<rparr>\<rparr>"
  have c: "ClaimNames apart_claim_xrd = Some ?c"
    by (simp add: apart_claim_xrd_def xrd_of_def)
  have k: "Kind ?c \<noteq> Kind (XRD_Names apart_claim_xrd)" "Plural ?c \<noteq> Plural (XRD_Names apart_claim_xrd)"
    "Singular ?c \<noteq> [] \<longrightarrow> Singular ?c \<noteq> Singular (XRD_Names apart_claim_xrd)"
    "ListKind ?c \<noteq> [] \<longrightarrow> ListKind ?c \<noteq> ListKind (XRD_Names apart_claim_xrd)"
    by (simp_all add: apart_claim_xrd_def xrd_of_def names_of_def)
  have p: "\<forall>v\<in>set (Versions apart_claim_xrd). \<not> isl (getSpecProps example_env (Schema v))"
    by (simp add: apart_claim_xrd_def xrd_of_def version_of_def getSpecProps_def)
  have w: "wf_slice shared_heap (ShortNames ?c)"
    by (simp add: wf_slice_def shared_heap_def)
  have a: "Categories ?c = ShortNames ?c \<or> apart (Categories ?c) (ShortNames ?c)"
    by (simp add: apart_def)
  have u: "[Suc 0..<2] = [Suc 0]"
    by (simp add: upt_rec)
  have v: "view (strings shared_heap) (ShortNames ?c) = [''b'']"
    "view (strings shared_heap) (Categories ?c) = [''a'']"
    by (simp_all add: view_def shared_heap_def empty_heap_def u)
  from claim_definition_for_valid_names [OF example_env_writable c k p w a]
  obtain h' crd where
    r: "ForCompositeResourceClaim example_env shared_heap apart_claim_xrd = (h', Inr crd)"
    and n: "CRD_Name crd = Plural ?c @ ''.'' @ Group apart_claim_xrd"
    and s: "Scope crd = NamespaceScoped"
    and kd: "Kind (CRD_Names crd) = Kind ?c"
    and sn: "view (strings h') (ShortNames (CRD_Names crd)) = view (strings shared_heap) (ShortNames ?c)"
    and ct: "view (strings h') (Categories (CRD_Names crd))
        = view (strings shared_heap) (Categories ?c) @ [CategoryClaim]"
    by blast
  from n have "CRD_Name crd = ''foos.example.org''"
    by (simp add: apart_claim_xrd_def xrd_of_def names_of_def)
  moreover from kd have "Kind (CRD_Names crd) = ''FooClaim''"
    by (simp add: names_of_def)
  moreover have "view (strings h') (ShortNames (CRD_Names crd)) = [''b'']"
    by (simp only: sn v)
  moreover have "view (strings h') (Categories (CRD_Names crd)) = [''a'', ''claim'']"
    by (simp only: ct v CategoryClaim_def) simp
  ultimately show ?thesis
    using r s by blast
qed

end
